theory Spec2Isabelle
  imports Complex_Main "HOL-Library.Multiset"
begin

section \<open>JavaScript numbers\<close>

text \<open>
  The numeric pipeline lives in \<^verbatim>\<open>src/services/kpiService.ts\<close> (detectTrend,
  createForecast, identifyDrivers, performAiAnalysis),
  \<^verbatim>\<open>src/components/KpiTrendComparison.tsx\<close> (calculateCorrelation and the
  \<^verbatim>\<open>correlation\<close> memo that calls it) and \<^verbatim>\<open>src/components/ReportGenerator.tsx\<close>
  (stats).

  A JavaScript number is an IEEE 754 double: a finite value, which is a real number, one
  of the two infinities, or NaN. Zero carries no sign here: the sign of a zero decides a
  result only where the zero divides a non-zero number, and every divisor of the modelled
  functions that can be zero (a difference, a length, the square root of a product of
  sums of squares) is then the positive zero. An input series is a list of finite
  numbers, \<open>real list\<close>.
\<close>

datatype jsnum = Num real | PInf | NInf | NaN

text \<open>The operations on the extended reals, before rounding.\<close>

fun jsneg :: "jsnum \<Rightarrow> jsnum" where
  "jsneg (Num a) = Num (- a)"
| "jsneg PInf = NInf"
| "jsneg NInf = PInf"
| "jsneg NaN = NaN"

fun jsadd :: "jsnum \<Rightarrow> jsnum \<Rightarrow> jsnum" where
  "jsadd (Num a) (Num b) = Num (a + b)"
| "jsadd NaN _ = NaN"
| "jsadd _ NaN = NaN"
| "jsadd PInf NInf = NaN"
| "jsadd NInf PInf = NaN"
| "jsadd PInf _ = PInf"
| "jsadd _ PInf = PInf"
| "jsadd NInf _ = NInf"
| "jsadd _ NInf = NInf"

fun jsmul :: "jsnum \<Rightarrow> jsnum \<Rightarrow> jsnum" where
  "jsmul (Num a) (Num b) = Num (a * b)"
| "jsmul NaN _ = NaN"
| "jsmul _ NaN = NaN"
| "jsmul (Num a) PInf = (if a = 0 then NaN else if 0 < a then PInf else NInf)"
| "jsmul (Num a) NInf = (if a = 0 then NaN else if 0 < a then NInf else PInf)"
| "jsmul PInf (Num b) = (if b = 0 then NaN else if 0 < b then PInf else NInf)"
| "jsmul NInf (Num b) = (if b = 0 then NaN else if 0 < b then NInf else PInf)"
| "jsmul PInf PInf = PInf"
| "jsmul PInf NInf = NInf"
| "jsmul NInf PInf = NInf"
| "jsmul NInf NInf = PInf"

fun jsdiv :: "jsnum \<Rightarrow> jsnum \<Rightarrow> jsnum" where
  "jsdiv (Num a) (Num b) =
     (if b \<noteq> 0 then Num (a / b)
      else if a = 0 then NaN
      else if 0 < a then PInf else NInf)"
| "jsdiv NaN _ = NaN"
| "jsdiv _ NaN = NaN"
| "jsdiv (Num a) PInf = Num 0"
| "jsdiv (Num a) NInf = Num 0"
| "jsdiv PInf (Num b) = (if 0 \<le> b then PInf else NInf)"
| "jsdiv NInf (Num b) = (if 0 \<le> b then NInf else PInf)"
| "jsdiv PInf PInf = NaN"
| "jsdiv PInf NInf = NaN"
| "jsdiv NInf PInf = NaN"
| "jsdiv NInf NInf = NaN"

fun jssqrt :: "jsnum \<Rightarrow> jsnum" where
  "jssqrt (Num a) = (if a < 0 then NaN else Num (sqrt a))"
| "jssqrt PInf = PInf"
| "jssqrt NInf = NaN"
| "jssqrt NaN = NaN"

text \<open>The comparisons \<^verbatim>\<open><\<close>, \<^verbatim>\<open>>\<close> and \<^verbatim>\<open><=\<close>; each is false when an operand is NaN.\<close>

fun jslt :: "jsnum \<Rightarrow> jsnum \<Rightarrow> bool" where
  "jslt (Num a) (Num b) = (a < b)"
| "jslt NaN _ = False"
| "jslt _ NaN = False"
| "jslt PInf _ = False"
| "jslt _ NInf = False"
| "jslt NInf _ = True"
| "jslt (Num a) PInf = True"

definition jsgt :: "jsnum \<Rightarrow> jsnum \<Rightarrow> bool" where
  "jsgt a b = jslt b a"

fun jsle :: "jsnum \<Rightarrow> jsnum \<Rightarrow> bool" where
  "jsle (Num a) (Num b) = (a \<le> b)"
| "jsle NaN _ = False"
| "jsle _ NaN = False"
| "jsle NInf _ = True"
| "jsle _ PInf = True"
| "jsle PInf _ = False"
| "jsle (Num a) NInf = False"

subsection \<open>Rounding\<close>

text \<open>
  Every arithmetic operation of the source returns the exact result rounded to a double.
  The rounding is a parameter of the model, with two instances: \<open>binary64\<close>, the
  rounding of the program (to the nearest double, ties to the even significand, overflow
  to an infinity), and \<open>exact\<close>, no rounding at all, for what the specification
  states over exact arithmetic.
\<close>

type_synonym rounding = "real \<Rightarrow> jsnum"

definition exact :: rounding where
  "exact x = Num x"

text \<open>Rounding a real to the nearest integer, a tie to the even one.\<close>

definition rne :: "real \<Rightarrow> int" where
  "rne q =
     (let f = \<lfloor>q\<rfloor>; d = q - of_int f
      in if d < 1 / 2 then f else if 1 / 2 < d then f + 1 else if even f then f else f + 1)"

text \<open>
  The exponent of the last place of a double next to \<open>x\<close>: 52 below the binary exponent
  of \<open>x\<close>, and never below that of the subnormal numbers.
\<close>

definition ulp_exponent :: "real \<Rightarrow> int" where
  "ulp_exponent x = max (\<lfloor>log 2 \<bar>x\<bar>\<rfloor> - 52) (- 1074)"

definition round_unbounded :: "real \<Rightarrow> real" where
  "round_unbounded x = of_int (rne (x / 2 powi ulp_exponent x)) * 2 powi ulp_exponent x"

definition binary64 :: rounding where
  "binary64 x =
     (if x = 0 then Num 0
      else let r = round_unbounded x
           in if 2 ^ 1024 \<le> r then PInf else if r \<le> - (2 ^ 1024) then NInf else Num r)"

definition rounded :: "rounding \<Rightarrow> jsnum \<Rightarrow> jsnum" where
  "rounded rnd v = (case v of Num r \<Rightarrow> rnd r | PInf \<Rightarrow> PInf | NInf \<Rightarrow> NInf | NaN \<Rightarrow> NaN)"

definition fadd :: "rounding \<Rightarrow> jsnum \<Rightarrow> jsnum \<Rightarrow> jsnum" where
  "fadd rnd a b = rounded rnd (jsadd a b)"

definition fsub :: "rounding \<Rightarrow> jsnum \<Rightarrow> jsnum \<Rightarrow> jsnum" where
  "fsub rnd a b = rounded rnd (jsadd a (jsneg b))"

definition fmul :: "rounding \<Rightarrow> jsnum \<Rightarrow> jsnum \<Rightarrow> jsnum" where
  "fmul rnd a b = rounded rnd (jsmul a b)"

definition fdiv :: "rounding \<Rightarrow> jsnum \<Rightarrow> jsnum \<Rightarrow> jsnum" where
  "fdiv rnd a b = rounded rnd (jsdiv a b)"

definition fsqrt :: "rounding \<Rightarrow> jsnum \<Rightarrow> jsnum" where
  "fsqrt rnd a = rounded rnd (jssqrt a)"

text \<open>A decimal literal of the source denotes the double nearest to it.\<close>

definition literal :: "rounding \<Rightarrow> real \<Rightarrow> jsnum" where
  "literal rnd c = rnd c"

section \<open>Arrays and strings\<close>

text \<open>
  Reading an array outside its bounds gives \<^verbatim>\<open>undefined\<close>. Every such read of the
  modelled functions is an operand of \<^verbatim>\<open>+\<close>, \<^verbatim>\<open>-\<close>, \<^verbatim>\<open>*\<close> or of a comparison
  with a number, where \<^verbatim>\<open>undefined\<close> converts to NaN, so the read itself returns NaN.
\<close>

definition js_index :: "jsnum list \<Rightarrow> int \<Rightarrow> jsnum" where
  "js_index xs i = (if 0 \<le> i \<and> i < int (length xs) then xs ! nat i else NaN)"

text \<open>A JavaScript string is its sequence of UTF-16 code units.\<close>

type_synonym jsstring = "nat list"

definition ascii :: "string \<Rightarrow> jsstring" where
  "ascii s = map of_char s"

text \<open>\<^verbatim>\<open>s.includes(t)\<close>: \<open>t\<close> occurs in \<open>s\<close> as a contiguous block.\<close>

fun js_includes :: "jsstring \<Rightarrow> jsstring \<Rightarrow> bool" where
  "js_includes [] t = (t = [])"
| "js_includes (c # cs) t = (take (length t) (c # cs) = t \<or> js_includes cs t)"

datatype js_error = TypeError

section \<open>detectTrend\<close>

text \<open>
  The five descriptions of a trend, in the order stable, moderate growth, strong growth,
  moderate decline, strong decline (the specification's labels \<open>stable\<close>,
  \<open>moderateGrowth\<close>, \<open>strongGrowth\<close>, \<open>moderateDecline\<close>, \<open>strongDecline\<close>).
\<close>

definition desc_stable :: jsstring where
  "desc_stable = [1089, 1090, 1072, 1073, 1080, 1083, 1100, 1085, 1099, 1081]"

definition desc_moderate_growth :: jsstring where
  "desc_moderate_growth =
     [1091, 1084, 1077, 1088, 1077, 1085, 1085, 1099, 1081, 32, 1088, 1086, 1089, 1090]"

definition desc_strong_growth :: jsstring where
  "desc_strong_growth =
     [1091, 1074, 1077, 1088, 1077, 1085, 1085, 1099, 1081, 32, 1088, 1086, 1089, 1090]"

definition desc_moderate_decline :: jsstring where
  "desc_moderate_decline =
     [1085, 1077, 1073, 1086, 1083, 1100, 1096, 1086, 1077, 32,
      1089, 1085, 1080, 1078, 1077, 1085, 1080, 1077]"

definition desc_strong_decline :: jsstring where
  "desc_strong_decline =
     [1089, 1091, 1097, 1077, 1089, 1090, 1074, 1077, 1085, 1085, 1086, 1077, 32,
      1089, 1085, 1080, 1078, 1077, 1085, 1080, 1077]"

record accum =
  sumX :: jsnum
  sumY :: jsnum
  sumXY :: jsnum
  sumXX :: jsnum

text \<open>The accumulation loop \<^verbatim>\<open>for (let i = 0; i < n; i++)\<close>.\<close>

function trend_loop :: "rounding \<Rightarrow> real list \<Rightarrow> nat \<Rightarrow> accum \<Rightarrow> accum" where
  "trend_loop rnd ys i s =
     (if i < length ys
      then trend_loop rnd ys (Suc i)
             \<lparr>sumX = fadd rnd (sumX s) (Num (real i)),
              sumY = fadd rnd (sumY s) (Num (ys ! i)),
              sumXY = fadd rnd (sumXY s) (fmul rnd (Num (real i)) (Num (ys ! i))),
              sumXX = fadd rnd (sumXX s) (fmul rnd (Num (real i)) (Num (real i)))\<rparr>
      else s)"
  by pat_completeness auto
termination
  by (relation "measure (\<lambda>(rnd, ys, i, s). length ys - i)") auto

declare trend_loop.simps [simp del]

definition trend_sums :: "rounding \<Rightarrow> real list \<Rightarrow> accum" where
  "trend_sums rnd ys =
     trend_loop rnd ys 0 \<lparr>sumX = Num 0, sumY = Num 0, sumXY = Num 0, sumXX = Num 0\<rparr>"

definition trend_slope :: "rounding \<Rightarrow> real list \<Rightarrow> jsnum" where
  "trend_slope rnd ys =
     (let n = Num (real (length ys)); s = trend_sums rnd ys
      in fdiv rnd (fsub rnd (fmul rnd n (sumXY s)) (fmul rnd (sumX s) (sumY s)))
                  (fsub rnd (fmul rnd n (sumXX s)) (fmul rnd (sumX s) (sumX s))))"

definition trend_intercept :: "rounding \<Rightarrow> real list \<Rightarrow> jsnum" where
  "trend_intercept rnd ys =
     (let n = Num (real (length ys)); s = trend_sums rnd ys
      in fdiv rnd (fsub rnd (sumY s) (fmul rnd (trend_slope rnd ys) (sumX s))) n)"

text \<open>
  The two thresholds \<^verbatim>\<open>data[0] * 0.005\<close> and \<^verbatim>\<open>data[0] * 0.015\<close>, and the chain of
  four \<^verbatim>\<open>if\<close> statements; a later one overwrites an earlier one.
\<close>

definition threshold_moderate :: "rounding \<Rightarrow> jsnum \<Rightarrow> jsnum" where
  "threshold_moderate rnd y0 = fmul rnd y0 (literal rnd 0.005)"

definition threshold_strong :: "rounding \<Rightarrow> jsnum \<Rightarrow> jsnum" where
  "threshold_strong rnd y0 = fmul rnd y0 (literal rnd 0.015)"

definition describe :: "rounding \<Rightarrow> jsnum \<Rightarrow> jsnum \<Rightarrow> jsstring" where
  "describe rnd slope y0 =
     (let d0 = desc_stable;
          d1 = (if jsgt slope (threshold_moderate rnd y0) then desc_moderate_growth else d0);
          d2 = (if jsgt slope (threshold_strong rnd y0) then desc_strong_growth else d1);
          d3 = (if jslt slope (threshold_moderate rnd (jsneg y0))
                then desc_moderate_decline else d2);
          d4 = (if jslt slope (threshold_strong rnd (jsneg y0))
                then desc_strong_decline else d3)
      in d4)"

record TrendResult =
  line :: "jsnum list"
  description :: jsstring

definition detectTrend :: "rounding \<Rightarrow> real list \<Rightarrow> TrendResult" where
  "detectTrend rnd ys =
     \<lparr>line = map (\<lambda>i. fadd rnd (fmul rnd (trend_slope rnd ys) (Num (real i)))
                                (trend_intercept rnd ys))
               [0 ..< length ys],
      description = describe rnd (trend_slope rnd ys) (js_index (map Num ys) 0)\<rparr>"

section \<open>createForecast\<close>

text \<open>One iteration of the loop body: the value pushed at step \<open>i\<close>.\<close>

definition forecast_step :: "rounding \<Rightarrow> real list \<Rightarrow> jsnum list \<Rightarrow> int \<Rightarrow> int \<Rightarrow> jsnum" where
  "forecast_step rnd ys trendLine periods i =
     (let n = int (length ys);
          lastTrendValue = js_index trendLine (n - 1);
          slope = fsub rnd (js_index trendLine (n - 1)) (js_index trendLine (n - 2));
          seasonalComponent =
            fsub rnd (js_index (map Num ys) (n - (periods - i) - 1))
                     (js_index trendLine (n - (periods - i) - 1))
      in fadd rnd (fadd rnd lastTrendValue (fmul rnd slope (Num (real_of_int i))))
                  seasonalComponent)"

function forecast_loop ::
  "rounding \<Rightarrow> real list \<Rightarrow> jsnum list \<Rightarrow> int \<Rightarrow> int \<Rightarrow> jsnum list \<Rightarrow> jsnum list" where
  "forecast_loop rnd ys trendLine periods i vals =
     (if i \<le> periods
      then forecast_loop rnd ys trendLine periods (i + 1)
             (vals @ [forecast_step rnd ys trendLine periods i])
      else vals)"
  by pat_completeness auto
termination
  by (relation "measure (\<lambda>(rnd, ys, trendLine, periods, i, vals). nat (periods - i + 1))")
     auto

declare forecast_loop.simps [simp del]

text \<open>
  The description of a forecast is a fixed text around \<^verbatim>\<open>avgForecast.toFixed(0)\<close>; the
  record keeps the number \<open>avgForecast\<close> it is printed from. The horizon is an integer;
  an omitted argument (\<open>None\<close>) takes the default 7.
\<close>

record ForecastResult =
  forecast_values :: "jsnum list"
  avgForecast :: jsnum

definition createForecast ::
  "rounding \<Rightarrow> real list \<Rightarrow> jsnum list \<Rightarrow> int option \<Rightarrow> ForecastResult" where
  "createForecast rnd ys trendLine periods_arg =
     (let periods = (case periods_arg of None \<Rightarrow> 7 | Some p \<Rightarrow> p);
          vals = forecast_loop rnd ys trendLine periods 1 [];
          firstForecast = js_index vals 0;
          lastForecast = js_index vals (int (length vals) - 1)
      in \<lparr>forecast_values = vals,
          avgForecast = fdiv rnd (fadd rnd firstForecast lastForecast) (Num 2)\<rparr>)"

section \<open>calculateCorrelation and its caller\<close>

text \<open>
  \<^verbatim>\<open>xs.reduce((a, b) => a + b)\<close> has no initial value: it starts from the first element
  and throws a TypeError on an empty array.
\<close>

fun reduce_add :: "rounding \<Rightarrow> real list \<Rightarrow> js_error + jsnum" where
  "reduce_add rnd [] = Inl TypeError"
| "reduce_add rnd (a # as) = Inr (foldl (fadd rnd) (Num a) (map Num as))"

record corr_accum =
  numerator :: jsnum
  denomX :: jsnum
  denomY :: jsnum

text \<open>The loop \<^verbatim>\<open>for (let i = 0; i < n; i++)\<close> with \<open>n = min (length x) (length y)\<close>.\<close>

function corr_loop ::
  "rounding \<Rightarrow> real list \<Rightarrow> real list \<Rightarrow> jsnum \<Rightarrow> jsnum \<Rightarrow> nat \<Rightarrow> corr_accum \<Rightarrow> corr_accum" where
  "corr_loop rnd x y meanX meanY i s =
     (if i < min (length x) (length y)
      then (let dx = fsub rnd (Num (x ! i)) meanX; dy = fsub rnd (Num (y ! i)) meanY
            in corr_loop rnd x y meanX meanY (Suc i)
                 \<lparr>numerator = fadd rnd (numerator s) (fmul rnd dx dy),
                  denomX = fadd rnd (denomX s) (fmul rnd dx dx),
                  denomY = fadd rnd (denomY s) (fmul rnd dy dy)\<rparr>)
      else s)"
  by pat_completeness auto
termination
  by (relation "measure (\<lambda>(rnd, x, y, meanX, meanY, i, s). min (length x) (length y) - i)")
     auto

declare corr_loop.simps [simp del]

definition calculateCorrelation :: "rounding \<Rightarrow> real list \<Rightarrow> real list \<Rightarrow> js_error + jsnum" where
  "calculateCorrelation rnd x y =
     (let n = min (length x) (length y)
      in if n = 0 then Inr (Num 0)
         else case reduce_add rnd (take n x) of
                Inl e \<Rightarrow> Inl e
              | Inr totalX \<Rightarrow>
                  (case reduce_add rnd (take n y) of
                     Inl e \<Rightarrow> Inl e
                   | Inr totalY \<Rightarrow>
                       (let meanX = fdiv rnd totalX (Num (real n));
                            meanY = fdiv rnd totalY (Num (real n));
                            s = corr_loop rnd x y meanX meanY 0
                                  \<lparr>numerator = Num 0, denomX = Num 0, denomY = Num 0\<rparr>
                        in if denomX s = Num 0 \<or> denomY s = Num 0 then Inr (Num 0)
                           else Inr (fdiv rnd (numerator s)
                                       (fsqrt rnd (fmul rnd (denomX s) (denomY s)))))))"

text \<open>
  The only caller, the \<^verbatim>\<open>correlation\<close> memo of the KpiCorrelation component. The two
  selected KPIs may be absent (\<open>None\<close>), as may the history of a KPI. Without a history
  on either side, or when both are the same KPI, the result is 1 if the two ids are
  equal (two absent KPIs have equal, undefined ids) and 0 otherwise; calculateCorrelation
  is not called.
\<close>

record Kpi =
  kpi_id :: jsstring
  history :: "real list option"

definition correlation :: "rounding \<Rightarrow> Kpi option \<Rightarrow> Kpi option \<Rightarrow> js_error + jsnum" where
  "correlation rnd kpi1 kpi2 =
     (case (Option.bind kpi1 history, Option.bind kpi2 history) of
        (Some h1, Some h2) \<Rightarrow>
          (if map_option kpi_id kpi1 = map_option kpi_id kpi2 then Inr (Num 1)
           else calculateCorrelation rnd h1 h2)
      | _ \<Rightarrow> Inr (if map_option kpi_id kpi1 = map_option kpi_id kpi2 then Num 1 else Num 0))"

section \<open>stats\<close>

text \<open>
  The statistics of the selected KPI's history; the history may be absent (\<open>None\<close>).
  \<^verbatim>\<open>data[0] || 1\<close> is 1 when the first value is 0.
\<close>

record Stats =
  stat_avg :: jsnum
  stat_min :: jsnum
  stat_max :: jsnum
  change :: jsnum

definition stats :: "rounding \<Rightarrow> real list option \<Rightarrow> Stats" where
  "stats rnd hist =
     (case hist of
        None \<Rightarrow> \<lparr>stat_avg = Num 0, stat_min = Num 0, stat_max = Num 0, change = Num 0\<rparr>
      | Some [] \<Rightarrow> \<lparr>stat_avg = Num 0, stat_min = Num 0, stat_max = Num 0, change = Num 0\<rparr>
      | Some (d0 # rest) \<Rightarrow>
          (let ys = d0 # rest
           in \<lparr>stat_avg = fdiv rnd (foldl (fadd rnd) (Num 0) (map Num ys))
                               (Num (real (length ys))),
               stat_min = Num (foldl min d0 rest),
               stat_max = Num (foldl max d0 rest),
               change =
                 (if length ys > 1
                  then fmul rnd
                         (fdiv rnd (fsub rnd (Num (ys ! (length ys - 1))) (Num (ys ! 0)))
                                   (Num (if ys ! 0 = 0 then 1 else ys ! 0)))
                         (Num 100)
                  else Num 0)\<rparr>))"

section \<open>identifyDrivers and performAiAnalysis\<close>

text \<open>The two keywords looked for in a trend description: growth, decline.\<close>

definition kw_growth :: jsstring where
  "kw_growth = [1088, 1086, 1089, 1090]"

definition kw_decline :: jsstring where
  "kw_decline = [1089, 1085, 1080, 1078, 1077, 1085, 1080, 1077]"

text \<open>The two object literals, as association lists from the KPI id to its drivers.\<close>

definition positiveDrivers :: "(jsstring \<times> jsstring list) list" where
  "positiveDrivers =
     [(ascii ''revenue'',
         [[1053, 1086, 1074, 1072, 1103, 32, 1084, 1072, 1088, 1082, 1077, 1090, 1080,
           1085, 1075, 1086, 1074, 1072, 1103, 32, 1082, 1072, 1084, 1087, 1072, 1085,
           1080, 1103],
          [1057, 1077, 1079, 1086, 1085, 1085, 1099, 1081, 32, 1089, 1087, 1088, 1086, 1089],
          [1059, 1074, 1077, 1083, 1080, 1095, 1077, 1085, 1080, 1077, 32, 1089, 1088,
           1077, 1076, 1085, 1077, 1075, 1086, 32, 1095, 1077, 1082, 1072]]),
      (ascii ''sales'',
         [[1047, 1072, 1087, 1091, 1089, 1082, 32, 1087, 1088, 1086, 1084, 1086, 45, 1072,
           1082, 1094, 1080, 1080],
          [1056, 1086, 1089, 1090, 32, 1090, 1088, 1072, 1092, 1080, 1082, 1072, 32, 1080,
           1079, 32, 1089, 1086, 1094, 46, 32, 1089, 1077, 1090, 1077, 1081],
          [1059, 1083, 1091, 1095, 1096, 1077, 1085, 1080, 1077, 32, 85, 88, 32, 1085,
           1072, 32, 1089, 1072, 1081, 1090, 1077]]),
      (ascii ''new_clients'',
         [[1059, 1089, 1087, 1077, 1096, 1085, 1072, 1103, 32, 80, 82, 45, 1072, 1082,
           1090, 1080, 1074, 1085, 1086, 1089, 1090, 1100],
          [1056, 1077, 1092, 1077, 1088, 1072, 1083, 1100, 1085, 1072, 1103, 32, 1087,
           1088, 1086, 1075, 1088, 1072, 1084, 1084, 1072],
          [1057, 1085, 1080, 1078, 1077, 1085, 1080, 1077, 32, 1089, 1090, 1086, 1080,
           1084, 1086, 1089, 1090, 1080, 32, 1087, 1088, 1080, 1074, 1083, 1077, 1095,
           1077, 1085, 1080, 1103]]),
      (ascii ''conversion'',
         [[1054, 1087, 1090, 1080, 1084, 1080, 1079, 1072, 1094, 1080, 1103, 32, 1074,
           1086, 1088, 1086, 1085, 1082, 1080, 32, 1087, 1088, 1086, 1076, 1072, 1078],
          [65, 47, 66, 32, 1090, 1077, 1089, 1090, 1099, 32, 1085, 1072, 32, 1089, 1090,
           1088, 1072, 1085, 1080, 1094, 1077, 32, 1086, 1087, 1083, 1072, 1090, 1099],
          [1059, 1083, 1091, 1095, 1096, 1077, 1085, 1080, 1077, 32, 1089, 1082, 1086,
           1088, 1086, 1089, 1090, 1080, 32, 1089, 1072, 1081, 1090, 1072]])]"

definition negativeDrivers :: "(jsstring \<times> jsstring list) list" where
  "negativeDrivers =
     [(ascii ''revenue'',
         [[1057, 1085, 1080, 1078, 1077, 1085, 1080, 1077, 32, 1088, 1077, 1082, 1083,
           1072, 1084, 1085, 1086, 1075, 1086, 32, 1073, 1102, 1076, 1078, 1077, 1090, 1072],
          [1058, 1077, 1093, 1085, 1080, 1095, 1077, 1089, 1082, 1080, 1077, 32, 1087,
           1088, 1086, 1073, 1083, 1077, 1084, 1099, 32, 1085, 1072, 32, 1089, 1072, 1081,
           1090, 1077],
          [1040, 1082, 1090, 1080, 1074, 1085, 1086, 1089, 1090, 1100, 32, 1082, 1086,
           1085, 1082, 1091, 1088, 1077, 1085, 1090, 1086, 1074]]),
      (ascii ''sales'',
         [[1053, 1077, 1091, 1076, 1072, 1095, 1085, 1072, 1103, 32, 1072, 1082, 1094,
           1080, 1103],
          [1055, 1072, 1076, 1077, 1085, 1080, 1077, 32, 1086, 1088, 1075, 1072, 1085,
           1080, 1095, 1077, 1089, 1082, 1086, 1075, 1086, 32, 1090, 1088, 1072, 1092,
           1080, 1082, 1072]]),
      (ascii ''new_clients'',
         [[1053, 1077, 1075, 1072, 1090, 1080, 1074, 1085, 1099, 1077, 32, 1086, 1090,
           1079, 1099, 1074, 1099],
          [1056, 1086, 1089, 1090, 32, 1089, 1090, 1086, 1080, 1084, 1086, 1089, 1090,
           1080, 32, 1087, 1088, 1080, 1074, 1083, 1077, 1095, 1077, 1085, 1080, 1103, 32,
           40, 67, 80, 65, 41]]),
      (ascii ''conversion'',
         [[1041, 1072, 1075, 32, 1074, 32, 1082, 1086, 1088, 1079, 1080, 1085, 1077],
          [1057, 1083, 1086, 1078, 1085, 1072, 1103, 32, 1092, 1086, 1088, 1084, 1072, 32,
           1088, 1077, 1075, 1080, 1089, 1090, 1088, 1072, 1094, 1080, 1080]])]"

text \<open>
  \<^verbatim>\<open>drivers.sort(() => 0.5 - Math.random())\<close> rearranges the array by a comparator that
  answers at random. The outcome is the parameter \<open>shuffle\<close>: the function from an array
  to the order the engine leaves it in; the theorems take it to be a rearrangement of its
  argument. Looking up an unregistered id gives \<^verbatim>\<open>undefined\<close>, and calling
  \<^verbatim>\<open>sort\<close> on it or spreading it throws a TypeError.
\<close>

definition identifyDrivers ::
  "(jsstring list \<Rightarrow> jsstring list) \<Rightarrow> jsstring \<Rightarrow> jsstring \<Rightarrow> js_error + jsstring list" where
  "identifyDrivers shuffle kpiId trendDescription =
     (if js_includes trendDescription kw_growth
      then (case map_of positiveDrivers kpiId of
              None \<Rightarrow> Inl TypeError
            | Some drivers \<Rightarrow> Inr (take 2 (shuffle drivers)))
      else if js_includes trendDescription kw_decline
      then (case map_of negativeDrivers kpiId of
              None \<Rightarrow> Inl TypeError
            | Some drivers \<Rightarrow> Inr (take 2 (shuffle drivers)))
      else (case map_of positiveDrivers kpiId of
              None \<Rightarrow> Inl TypeError
            | Some pos \<Rightarrow>
                (case map_of negativeDrivers kpiId of
                   None \<Rightarrow> Inl TypeError
                 | Some neg \<Rightarrow> Inr (take 2 (shuffle (pos @ neg))))))"

record AnalysisResult =
  result_data :: "real list"
  result_trend :: TrendResult
  result_forecast :: ForecastResult
  result_drivers :: "jsstring list"

definition performAiAnalysis ::
  "rounding \<Rightarrow> (jsstring list \<Rightarrow> jsstring list) \<Rightarrow> real list \<Rightarrow> jsstring option
     \<Rightarrow> js_error + AnalysisResult" where
  "performAiAnalysis rnd shuffle series kpiId_arg =
     (let kpiId = (case kpiId_arg of None \<Rightarrow> ascii ''revenue'' | Some k \<Rightarrow> k);
          t = detectTrend rnd series;
          f = createForecast rnd series (line t) None
      in case identifyDrivers shuffle kpiId (description t) of
           Inl e \<Rightarrow> Inl e
         | Inr ds \<Rightarrow> Inr \<lparr>result_data = series, result_trend = t, result_forecast = f,
                        result_drivers = ds\<rparr>)"

section \<open>The specification's formulas\<close>

text \<open>
  The two formulas of the specification's Trend Detector, over the indices
  \<open>0, ..., n - 1\<close> of the series, in exact arithmetic.
\<close>

definition spec_ols_slope :: "real list \<Rightarrow> real" where
  "spec_ols_slope ys =
     (let n = length ys
      in (real n * (\<Sum>i < n. real i * ys ! i) - (\<Sum>i < n. real i) * (\<Sum>i < n. ys ! i))
         / (real n * (\<Sum>i < n. real i * real i) - (\<Sum>i < n. real i) * (\<Sum>i < n. real i)))"

definition spec_ols_intercept :: "real list \<Rightarrow> real" where
  "spec_ols_intercept ys =
     (let n = length ys
      in ((\<Sum>i < n. ys ! i) - spec_ols_slope ys * (\<Sum>i < n. real i)) / real n)"

text \<open>The total of an array of numbers, added up from the left starting at 0.\<close>

definition jssum :: "rounding \<Rightarrow> jsnum list \<Rightarrow> jsnum" where
  "jssum rnd xs = foldl (fadd rnd) (Num 0) xs"

text \<open>
  The label bands as the specification lists them, for a slope and the two thresholds
  \<open>t1\<close> (0.005 times the first value) and \<open>t2\<close> (0.015 times the first value).
\<close>

definition spec_label :: "jsnum \<Rightarrow> jsnum \<Rightarrow> jsnum \<Rightarrow> jsstring" where
  "spec_label slope t1 t2 =
     (if jsgt slope t2 then desc_strong_growth
      else if jsgt slope t1 \<and> jsle slope t2 then desc_moderate_growth
      else if jslt slope (jsneg t2) then desc_strong_decline
      else if jsle (jsneg t2) slope \<and> jslt slope (jsneg t1) then desc_moderate_decline
      else desc_stable)"

text \<open>
  The position of a description in the ordered partition of the slope axis, from strong
  decline (-2) over stable (0) to strong growth (2); its absolute value is the strength of
  the label. The magnitude of a number.
\<close>

definition label_rank :: "jsstring \<Rightarrow> int" where
  "label_rank d =
     (if d = desc_strong_growth then 2
      else if d = desc_moderate_growth then 1
      else if d = desc_moderate_decline then - 1
      else if d = desc_strong_decline then - 2
      else 0)"

fun jsabs :: "jsnum \<Rightarrow> jsnum" where
  "jsabs (Num a) = Num \<bar>a\<bar>"
| "jsabs PInf = PInf"
| "jsabs NInf = PInf"
| "jsabs NaN = NaN"

text \<open>
  The forecast step as the specification words it: the residual is read at index
  \<open>n - horizon + k - 1\<close>, moved to index 0 where that index would be negative.
\<close>

definition spec_forecast_step ::
  "rounding \<Rightarrow> real list \<Rightarrow> jsnum list \<Rightarrow> int \<Rightarrow> int \<Rightarrow> jsnum" where
  "spec_forecast_step rnd ys trendLine horizon k =
     (let n = int (length ys);
          lastTrendValue = js_index trendLine (n - 1);
          slope = fsub rnd (js_index trendLine (n - 1)) (js_index trendLine (n - 2));
          j = (if n - horizon + k - 1 < 0 then 0 else n - horizon + k - 1);
          residual = fsub rnd (js_index (map Num ys) j) (js_index trendLine j)
      in fadd rnd (fadd rnd lastTrendValue (fmul rnd slope (Num (real_of_int k)))) residual)"

text \<open>
  The arithmetic mean of a series, the sum of its squared deviations from the mean (zero
  variance means this sum is 0) and the sum of the products of the deviations of two
  series, in exact arithmetic.
\<close>

definition spec_mean :: "real list \<Rightarrow> real" where
  "spec_mean xs = sum_list xs / real (length xs)"

definition spec_sq_dev :: "real list \<Rightarrow> real" where
  "spec_sq_dev xs = (\<Sum>i < length xs. (xs ! i - spec_mean xs) * (xs ! i - spec_mean xs))"

definition spec_co_dev :: "real list \<Rightarrow> real list \<Rightarrow> real" where
  "spec_co_dev xs ys =
     (\<Sum>i < min (length xs) (length ys). (xs ! i - spec_mean xs) * (ys ! i - spec_mean ys))"

text \<open>The four registered KPI ids, the keys of both object literals.\<close>

definition registered :: "jsstring list" where
  "registered = [ascii ''revenue'', ascii ''sales'', ascii ''new_clients'', ascii ''conversion'']"

section \<open>Rounded operations\<close>

lemma exact_apply [simp]: "exact x = Num x"
  by (simp add: exact_def)

lemma rounded_Num [simp]: "rounded rnd (Num r) = rnd r"
  by (simp add: rounded_def)

lemma rounded_special [simp]:
  "rounded rnd NaN = NaN" "rounded rnd PInf = PInf" "rounded rnd NInf = NInf"
  by (simp_all add: rounded_def)

lemma fadd_Num [simp]: "fadd rnd (Num a) (Num b) = rnd (a + b)"
  by (simp add: fadd_def)

lemma fsub_Num [simp]: "fsub rnd (Num a) (Num b) = rnd (a - b)"
  by (simp add: fsub_def)

lemma fmul_Num [simp]: "fmul rnd (Num a) (Num b) = rnd (a * b)"
  by (simp add: fmul_def)

lemma fdiv_Num [simp]: "b \<noteq> 0 \<Longrightarrow> fdiv rnd (Num a) (Num b) = rnd (a / b)"
  by (simp add: fdiv_def)

lemma jsadd_NaN_right [simp]: "jsadd x NaN = NaN"
  by (cases x) simp_all

lemma jsmul_NaN_right [simp]: "jsmul x NaN = NaN"
  by (cases x) simp_all

lemma jsdiv_NaN_right [simp]: "jsdiv x NaN = NaN"
  by (cases x) simp_all

lemma fadd_NaN [simp]: "fadd rnd x NaN = NaN" "fadd rnd NaN x = NaN"
  by (simp_all add: fadd_def)

lemma fsub_NaN [simp]: "fsub rnd x NaN = NaN" "fsub rnd NaN x = NaN"
  by (simp_all add: fsub_def)

lemma fmul_NaN [simp]: "fmul rnd x NaN = NaN" "fmul rnd NaN x = NaN"
  by (simp_all add: fmul_def)

lemma fdiv_NaN [simp]: "fdiv rnd x NaN = NaN" "fdiv rnd NaN x = NaN"
  by (simp_all add: fdiv_def)

lemma jslt_NaN_right [simp]: "\<not> jslt x NaN"
  by (cases x) simp_all

lemma jsle_NaN_right [simp]: "\<not> jsle x NaN"
  by (cases x) simp_all

lemma jsmul_commute: "jsmul a b = jsmul b a"
  by (cases a; cases b) (simp_all add: mult.commute)

lemma jsadd_commute: "jsadd a b = jsadd b a"
  by (cases a; cases b) (simp_all add: add.commute)

lemma fmul_commute: "fmul rnd a b = fmul rnd b a"
  by (simp add: fmul_def jsmul_commute)

lemma fadd_commute: "fadd rnd a b = fadd rnd b a"
  by (simp add: fadd_def jsadd_commute)

section \<open>Rounding to the nearest double\<close>

lemma rne_of_int: "rne (of_int k) = k"
  by (simp add: rne_def)

lemma rne_floor_or_succ:
  "(rne q = \<lfloor>q\<rfloor> \<and> q - of_int \<lfloor>q\<rfloor> \<le> 1 / 2)
   \<or> (rne q = \<lfloor>q\<rfloor> + 1 \<and> 1 / 2 \<le> q - of_int \<lfloor>q\<rfloor>)"
proof -
  let ?d = "q - of_int \<lfloor>q\<rfloor>"
  consider "?d < 1 / 2" | "1 / 2 < ?d" | "?d = 1 / 2" by linarith
  then show ?thesis
  proof cases
    case 1
    then have "rne q = \<lfloor>q\<rfloor>" unfolding rne_def Let_def by (simp only: if_True)
    with 1 show ?thesis by simp
  next
    case 2
    then have "\<not> ?d < 1 / 2" by simp
    with 2 have "rne q = \<lfloor>q\<rfloor> + 1" unfolding rne_def Let_def by (simp only: if_True if_False)
    with 2 show ?thesis by simp
  next
    case 3
    then have "\<not> ?d < 1 / 2" "\<not> 1 / 2 < ?d" by simp_all
    then have "rne q = (if even \<lfloor>q\<rfloor> then \<lfloor>q\<rfloor> else \<lfloor>q\<rfloor> + 1)"
      unfolding rne_def Let_def by (simp only: if_False)
    with 3 show ?thesis by (cases "even \<lfloor>q\<rfloor>") simp_all
  qed
qed

lemma rne_eq:
  assumes "\<bar>q - of_int m\<bar> < 1 / 2"
  shows "rne q = m"
proof (cases "of_int m \<le> q")
  case True
  with assms have f: "\<lfloor>q\<rfloor> = m" by (intro floor_unique) linarith+
  from assms True have "q - of_int m < 1 / 2" by linarith
  then show ?thesis unfolding rne_def Let_def f by (simp only: if_True)
next
  case False
  have m1: "real_of_int (m - 1) = of_int m - 1" by simp
  have "of_int (m - 1) \<le> q" "q < of_int (m - 1) + 1"
    unfolding m1 using assms False by linarith+
  then have f: "\<lfloor>q\<rfloor> = m - 1" by (rule floor_unique)
  from False assms have d: "1 / 2 < q - of_int (m - 1)" unfolding m1 by linarith
  then have "\<not> q - of_int (m - 1) < 1 / 2" by linarith
  with d show ?thesis unfolding rne_def Let_def f by (simp only: if_True if_False)
qed

lemma rne_tie:
  assumes "q = of_int m + 1 / 2"
  shows "rne q = (if even m then m else m + 1)"
proof -
  from assms have "\<lfloor>q\<rfloor> = m" by (intro floor_unique) simp_all
  with assms show ?thesis by (simp add: rne_def Let_def)
qed

lemma rne_mono:
  assumes "q \<le> q'"
  shows "rne q \<le> rne q'"
proof -
  from assms have fl: "\<lfloor>q\<rfloor> \<le> \<lfloor>q'\<rfloor>" by (rule floor_mono)
  show ?thesis
  proof (cases "\<lfloor>q\<rfloor> = \<lfloor>q'\<rfloor>")
    case True
    with assms show ?thesis
      by (auto simp add: rne_def Let_def)
  next
    case False
    with fl have "\<lfloor>q\<rfloor> + 1 \<le> \<lfloor>q'\<rfloor>" by simp
    moreover have "rne q \<le> \<lfloor>q\<rfloor> + 1" using rne_floor_or_succ [of q] by auto
    moreover have "\<lfloor>q'\<rfloor> \<le> rne q'" using rne_floor_or_succ [of q'] by auto
    ultimately show ?thesis by linarith
  qed
qed

lemma rne_le_int: "q \<le> of_int k \<Longrightarrow> rne q \<le> k"
  using rne_mono [of q "of_int k"] by (simp add: rne_of_int)

lemma rne_ge_int: "of_int k \<le> q \<Longrightarrow> k \<le> rne q"
  using rne_mono [of "of_int k" q] by (simp add: rne_of_int)

lemma rne_minus: "rne (- q) = - rne q"
proof (cases "q = of_int \<lfloor>q\<rfloor>")
  case True
  then obtain k where "q = of_int k" ..
  then have "rne q = k" "rne (- q) = - k"
    using rne_of_int [of k] rne_of_int [of "- k"] by simp_all
  then show ?thesis by simp
next
  case False
  let ?f = "\<lfloor>q\<rfloor>"
  have lo: "of_int ?f \<le> q" and hi: "q < of_int ?f + 1" by linarith+
  with False have lo': "of_int ?f < q" by linarith
  have "real_of_int (- ?f - 1) = - of_int ?f - 1" by simp
  with lo' hi have "of_int (- ?f - 1) \<le> - q" "- q < of_int (- ?f - 1) + 1" by linarith+
  then have f': "\<lfloor>- q\<rfloor> = - ?f - 1" by (rule floor_unique)
  have ev: "even (- ?f - 1) \<longleftrightarrow> odd ?f" by simp
  show ?thesis
    unfolding rne_def Let_def f' using lo' hi ev
    by (auto simp add: algebra_simps)
qed

lemma binade_bounds:
  assumes "x \<noteq> 0"
  shows "2 powi \<lfloor>log 2 \<bar>x\<bar>\<rfloor> \<le> \<bar>x\<bar>" and "\<bar>x\<bar> < 2 powi (\<lfloor>log 2 \<bar>x\<bar>\<rfloor> + 1)"
proof -
  from assms have pos: "0 < \<bar>x\<bar>" by simp
  have "2 powr real_of_int \<lfloor>log 2 \<bar>x\<bar>\<rfloor> \<le> \<bar>x\<bar>
        \<and> \<bar>x\<bar> < 2 powr (real_of_int \<lfloor>log 2 \<bar>x\<bar>\<rfloor> + 1)"
    using floor_log_eq_powr_iff [OF pos, of 2 "\<lfloor>log 2 \<bar>x\<bar>\<rfloor>"] by simp
  moreover have "real_of_int \<lfloor>log 2 \<bar>x\<bar>\<rfloor> + 1 = real_of_int (\<lfloor>log 2 \<bar>x\<bar>\<rfloor> + 1)" by simp
  ultimately show "2 powi \<lfloor>log 2 \<bar>x\<bar>\<rfloor> \<le> \<bar>x\<bar>" and "\<bar>x\<bar> < 2 powi (\<lfloor>log 2 \<bar>x\<bar>\<rfloor> + 1)"
    by (simp_all only: powr_real_of_int' [of 2, simplified])
qed

lemma floor_log_unique:
  assumes "2 powi k \<le> \<bar>x\<bar>" and "\<bar>x\<bar> < 2 powi (k + 1)"
  shows "\<lfloor>log 2 \<bar>x\<bar>\<rfloor> = k"
proof -
  have "(0::real) < 2 powi k" by simp
  with assms(1) have pos: "0 < \<bar>x\<bar>" by linarith
  have "real_of_int k + 1 = real_of_int (k + 1)" by simp
  with assms have "2 powr real_of_int k \<le> \<bar>x\<bar> \<and> \<bar>x\<bar> < 2 powr (real_of_int k + 1)"
    by (simp only: powr_real_of_int' [of 2, simplified])
  then show ?thesis
    using floor_log_eq_powr_iff [OF pos, of 2 k] by simp
qed

lemma ulp_exponent_ge: "- 1074 \<le> ulp_exponent x"
  by (simp add: ulp_exponent_def)

lemma ulp_exponent_minus: "ulp_exponent (- x) = ulp_exponent x"
  by (simp add: ulp_exponent_def)

lemma ulp_exponent_normal:
  assumes "2 powi (e + 52) \<le> \<bar>x\<bar>" and "\<bar>x\<bar> < 2 powi (e + 53)" and "- 1074 \<le> e"
  shows "ulp_exponent x = e"
proof -
  have eq: "e + 52 + 1 = e + 53" by simp
  from assms(2) have "\<bar>x\<bar> < 2 powi (e + 52 + 1)" by (simp only: eq)
  with assms(1) have "\<lfloor>log 2 \<bar>x\<bar>\<rfloor> = e + 52" by (rule floor_log_unique)
  with assms(3) show ?thesis by (simp add: ulp_exponent_def)
qed

lemma ulp_exponent_subnormal:
  assumes "x \<noteq> 0" and "\<bar>x\<bar> < 2 powi (- 1022)"
  shows "ulp_exponent x = - 1074"
proof -
  have "\<lfloor>log 2 \<bar>x\<bar>\<rfloor> < - 1022"
  proof (rule ccontr)
    assume "\<not> \<lfloor>log 2 \<bar>x\<bar>\<rfloor> < - 1022"
    then have "(2::real) powi (- 1022) \<le> 2 powi \<lfloor>log 2 \<bar>x\<bar>\<rfloor>"
      by (intro power_int_increasing) simp_all
    with binade_bounds(1) [OF assms(1)] assms(2) show False by linarith
  qed
  then show ?thesis unfolding ulp_exponent_def by linarith
qed

lemma ulp_exponent_upper:
  assumes "x \<noteq> 0"
  shows "\<bar>x\<bar> < 2 powi (ulp_exponent x + 53)"
proof -
  have "\<lfloor>log 2 \<bar>x\<bar>\<rfloor> + 1 \<le> ulp_exponent x + 53" by (simp add: ulp_exponent_def)
  then have "(2::real) powi (\<lfloor>log 2 \<bar>x\<bar>\<rfloor> + 1) \<le> 2 powi (ulp_exponent x + 53)"
    by (intro power_int_increasing) simp_all
  with binade_bounds(2) [OF assms] show ?thesis by linarith
qed

lemma ulp_exponent_lower:
  assumes "x \<noteq> 0" and "- 1074 < ulp_exponent x"
  shows "2 powi (ulp_exponent x + 52) \<le> \<bar>x\<bar>"
proof -
  from assms(2) have "ulp_exponent x + 52 = \<lfloor>log 2 \<bar>x\<bar>\<rfloor>"
    by (simp add: ulp_exponent_def split: if_splits)
  with binade_bounds(1) [OF assms(1)] show ?thesis by simp
qed

lemma ulp_exponent_mono:
  assumes "0 < a" and "a \<le> b"
  shows "ulp_exponent a \<le> ulp_exponent b"
proof -
  from assms have "log 2 \<bar>a\<bar> \<le> log 2 \<bar>b\<bar>" by simp
  then have "\<lfloor>log 2 \<bar>a\<bar>\<rfloor> \<le> \<lfloor>log 2 \<bar>b\<bar>\<rfloor>" by (rule floor_mono)
  then show ?thesis by (simp add: ulp_exponent_def)
qed

lemma round_unbounded_zero: "round_unbounded 0 = 0"
  using rne_of_int [of 0] by (simp add: round_unbounded_def)

lemma round_unbounded_minus: "round_unbounded (- x) = - round_unbounded x"
  by (simp add: round_unbounded_def ulp_exponent_minus rne_minus)

lemma round_unbounded_nonneg:
  assumes "0 \<le> x"
  shows "0 \<le> round_unbounded x"
proof -
  from assms have "of_int 0 \<le> x / 2 powi ulp_exponent x" by simp
  then have "0 \<le> rne (x / 2 powi ulp_exponent x)" by (rule rne_ge_int)
  then show ?thesis by (simp add: round_unbounded_def)
qed

lemma round_unbounded_mono_pos:
  assumes "0 < a" and "a \<le> b"
  shows "round_unbounded a \<le> round_unbounded b"
proof -
  let ?ea = "ulp_exponent a" and ?eb = "ulp_exponent b"
  from assms have b: "0 < b" by linarith
  have le: "?ea \<le> ?eb" using assms by (rule ulp_exponent_mono)
  show ?thesis
  proof (cases "?ea = ?eb")
    case True
    from assms(2) have "a / 2 powi ?eb \<le> b / 2 powi ?eb"
      by (simp add: divide_right_mono)
    then have "rne (a / 2 powi ?eb) \<le> rne (b / 2 powi ?eb)" by (rule rne_mono)
    then have "real_of_int (rne (a / 2 powi ?eb)) * 2 powi ?eb
                 \<le> real_of_int (rne (b / 2 powi ?eb)) * 2 powi ?eb"
      by (intro mult_right_mono) simp_all
    with True show ?thesis by (simp add: round_unbounded_def)
  next
    case False
    with le have lt: "?ea < ?eb" by simp
    with ulp_exponent_ge [of a] have nb: "- 1074 < ?eb" by linarith
    let ?k = "?eb + 52"
    from b have b0: "b \<noteq> 0" by simp
    from assms(1) have a0: "a \<noteq> 0" by simp
    have lowb: "2 powi ?k \<le> b" using ulp_exponent_lower [OF b0 nb] b by simp
    have upa: "a < 2 powi (?ea + 53)" using ulp_exponent_upper [OF a0] assms(1) by simp
    from lt have "(2::real) powi (?ea + 53) \<le> 2 powi ?k"
      by (intro power_int_increasing) simp_all
    with upa have a_lt: "a < 2 powi ?k" by linarith
    have k52: "?k - ?eb = 52" by simp
    have "(2::real) powi ?k / 2 powi ?eb = 2 powi (?k - ?eb)"
      by (rule power_int_diff [symmetric]) simp
    also have "\<dots> = 2 powi 52" by (simp only: k52)
    also have "\<dots> = of_int (2 ^ 52)" by simp
    finally have q52: "(2::real) powi ?k / 2 powi ?eb = of_int (2 ^ 52)" .
    from lowb have "2 powi ?k / 2 powi ?eb \<le> b / 2 powi ?eb"
      by (simp add: divide_right_mono)
    then have "of_int (2 ^ 52) \<le> b / 2 powi ?eb" by (simp only: q52)
    then have "2 ^ 52 \<le> rne (b / 2 powi ?eb)" by (rule rne_ge_int)
    then have "real_of_int (2 ^ 52) \<le> real_of_int (rne (b / 2 powi ?eb))" by linarith
    then have "real_of_int (2 ^ 52) * 2 powi ?eb \<le> real_of_int (rne (b / 2 powi ?eb)) * 2 powi ?eb"
      by (intro mult_right_mono) simp_all
    moreover have "real_of_int (2 ^ 52) * 2 powi ?eb = 2 powi ?k"
      using q52 by (simp add: field_simps)
    ultimately have rb: "2 powi ?k \<le> round_unbounded b"
      unfolding round_unbounded_def by linarith
    from lt have d: "0 \<le> ?k - ?ea" by simp
    have "(2::real) powi ?k / 2 powi ?ea = 2 powi (?k - ?ea)"
      by (rule power_int_diff [symmetric]) simp
    also from d have "\<dots> = of_int (2 ^ nat (?k - ?ea))"
      by (simp add: power_int_def)
    finally have qa: "(2::real) powi ?k / 2 powi ?ea = of_int (2 ^ nat (?k - ?ea))" .
    from a_lt have "a / 2 powi ?ea \<le> 2 powi ?k / 2 powi ?ea"
      by (simp add: divide_right_mono)
    then have "a / 2 powi ?ea \<le> of_int (2 ^ nat (?k - ?ea))" by (simp only: qa)
    then have "rne (a / 2 powi ?ea) \<le> 2 ^ nat (?k - ?ea)" by (rule rne_le_int)
    then have "real_of_int (rne (a / 2 powi ?ea)) \<le> real_of_int (2 ^ nat (?k - ?ea))" by linarith
    then have "real_of_int (rne (a / 2 powi ?ea)) * 2 powi ?ea
                 \<le> real_of_int (2 ^ nat (?k - ?ea)) * 2 powi ?ea"
      by (intro mult_right_mono) simp_all
    moreover have "real_of_int (2 ^ nat (?k - ?ea)) * 2 powi ?ea = 2 powi ?k"
      using qa by (simp add: field_simps)
    ultimately have ra: "round_unbounded a \<le> 2 powi ?k"
      unfolding round_unbounded_def by linarith
    from ra rb show ?thesis by linarith
  qed
qed

lemma round_unbounded_mono:
  assumes "a \<le> b"
  shows "round_unbounded a \<le> round_unbounded b"
proof -
  consider "0 < a" | "a \<le> 0" "0 \<le> b" | "b < 0" using assms by linarith
  then show ?thesis
  proof cases
    case 1
    then show ?thesis using assms by (rule round_unbounded_mono_pos)
  next
    case 2
    from 2(1) have "0 \<le> round_unbounded (- a)" by (intro round_unbounded_nonneg) simp
    then have "round_unbounded a \<le> 0" by (simp add: round_unbounded_minus)
    with round_unbounded_nonneg [OF 2(2)] show ?thesis by linarith
  next
    case 3
    with assms have "0 < - b" "- b \<le> - a" by simp_all
    then have "round_unbounded (- b) \<le> round_unbounded (- a)" by (rule round_unbounded_mono_pos)
    then show ?thesis by (simp add: round_unbounded_minus)
  qed
qed

lemma binary64_round:
  "binary64 x =
     (let r = round_unbounded x
      in if 2 ^ 1024 \<le> r then PInf else if r \<le> - (2 ^ 1024) then NInf else Num r)"
  by (simp add: binary64_def round_unbounded_zero Let_def)

lemma binary64_zero: "binary64 0 = Num 0"
  by (simp add: binary64_def)

lemma binary64_minus: "binary64 (- x) = jsneg (binary64 x)"
  by (simp add: binary64_round round_unbounded_minus Let_def)

lemma binary64_mono:
  assumes "a \<le> b"
  shows "jsle (binary64 a) (binary64 b)"
  using round_unbounded_mono [OF assms]
  by (simp add: binary64_round Let_def)

lemma binary64_not_NaN: "binary64 x \<noteq> NaN"
  by (simp add: binary64_round Let_def)

lemma binary64_normal:
  assumes "2 powi (e + 52) \<le> \<bar>x\<bar>" and "\<bar>x\<bar> < 2 powi (e + 53)"
    and "- 1074 \<le> e" and "e \<le> 970"
  shows "binary64 x = Num (of_int (rne (x / 2 powi e)) * 2 powi e)"
proof -
  have e: "ulp_exponent x = e" using assms(1-3) by (rule ulp_exponent_normal)
  let ?q = "x / 2 powi e"
  have p: "(0::real) < 2 powi e" by simp
  have q53: "(2::real) powi (e + 53) = 2 ^ 53 * 2 powi e" by (simp add: power_int_add)
  from assms(2) have "\<bar>x\<bar> / 2 powi e < 2 ^ 53"
    unfolding q53 using p by (simp add: pos_divide_less_eq)
  moreover have "\<bar>x\<bar> / 2 powi e = \<bar>?q\<bar>" by simp
  ultimately have "\<bar>?q\<bar> < 2 ^ 53" by (simp only:)
  moreover have "real_of_int (2 ^ 53) = 2 ^ 53" "real_of_int (- (2 ^ 53)) = - (2 ^ 53)"
    by simp_all
  ultimately have qb: "?q \<le> of_int (2 ^ 53)" "of_int (- (2 ^ 53)) \<le> ?q"
    by linarith+
  have "rne ?q \<le> 2 ^ 53" using qb(1) by (rule rne_le_int)
  moreover have "- (2 ^ 53) \<le> rne ?q" using qb(2) by (rule rne_ge_int)
  ultimately have m: "\<bar>real_of_int (rne ?q)\<bar> \<le> 2 ^ 53" by (simp add: abs_le_iff)
  from assms(4) have "(2::real) powi e \<le> 2 powi 970" by (intro power_int_increasing) simp_all
  with m have "\<bar>real_of_int (rne ?q)\<bar> * 2 powi e \<le> 2 ^ 53 * 2 powi 970"
    by (intro mult_mono) simp_all
  also have "\<dots> < (2::real) ^ 1024" by simp
  finally have "\<bar>real_of_int (rne ?q) * 2 powi e\<bar> < 2 ^ 1024"
    by (simp add: abs_mult)
  then have "\<not> 2 ^ 1024 \<le> real_of_int (rne ?q) * 2 powi e"
    and "\<not> real_of_int (rne ?q) * 2 powi e \<le> - (2 ^ 1024)"
    by linarith+
  then show ?thesis
    unfolding binary64_round round_unbounded_def e Let_def by (simp only: if_False)
qed

lemma binary64_value:
  assumes "2 powi (e + 52) \<le> \<bar>x\<bar>" and "\<bar>x\<bar> < 2 powi (e + 53)"
    and "- 1074 \<le> e" and "e \<le> 970"
    and "\<bar>x / 2 powi e - of_int m\<bar> < 1 / 2" and "y = of_int m * 2 powi e"
  shows "binary64 x = Num y"
  using binary64_normal [OF assms(1-4)] rne_eq [OF assms(5)] assms(6) by simp

lemma binary64_tie:
  assumes "2 powi (e + 52) \<le> \<bar>x\<bar>" and "\<bar>x\<bar> < 2 powi (e + 53)"
    and "- 1074 \<le> e" and "e \<le> 970"
    and "x / 2 powi e = of_int m + 1 / 2"
    and "y = of_int (if even m then m else m + 1) * 2 powi e"
  shows "binary64 x = Num y"
  using binary64_normal [OF assms(1-4)] rne_tie [OF assms(5)] assms(6) by simp

lemma binary64_overflow:
  assumes "2 ^ 1024 \<le> x"
  shows "binary64 x = PInf"
proof -
  have e: "ulp_exponent ((2::real) ^ 1024) = 972"
    by (rule ulp_exponent_normal) simp_all
  have "round_unbounded ((2::real) ^ 1024) = 2 ^ 1024"
    unfolding round_unbounded_def e using rne_of_int [of "2 ^ 52"] by simp
  with round_unbounded_mono [OF assms] have "2 ^ 1024 \<le> round_unbounded x" by simp
  then show ?thesis by (simp add: binary64_round Let_def)
qed

lemma floor_log_less:
  assumes "x \<noteq> 0" and "\<bar>x\<bar> < 2 powi k"
  shows "\<lfloor>log 2 \<bar>x\<bar>\<rfloor> < k"
proof (rule ccontr)
  assume "\<not> \<lfloor>log 2 \<bar>x\<bar>\<rfloor> < k"
  then have "(2::real) powi k \<le> 2 powi \<lfloor>log 2 \<bar>x\<bar>\<rfloor>"
    by (intro power_int_increasing) simp_all
  with binade_bounds(1) [OF assms(1)] assms(2) show False by linarith
qed

lemma binary64_representable:
  assumes "x = of_int m * 2 powi e" and "\<bar>m\<bar> < 2 ^ 53" and "- 1074 \<le> e" and "e \<le> 970"
  shows "binary64 x = Num x"
proof (cases "x = 0")
  case True
  then show ?thesis by (simp add: binary64_zero)
next
  case False
  let ?e' = "ulp_exponent x"
  have p: "(0::real) < 2 powi e" by simp
  from assms(2) have "\<bar>real_of_int m\<bar> < 2 ^ 53" by (simp add: abs_less_iff)
  then have "\<bar>real_of_int m\<bar> * 2 powi e < 2 ^ 53 * 2 powi e"
    using p by (simp only: mult_less_cancel_right_pos)
  then have xb: "\<bar>x\<bar> < 2 powi (e + 53)"
    by (simp add: assms(1) abs_mult power_int_add mult.commute)
  then have "\<lfloor>log 2 \<bar>x\<bar>\<rfloor> < e + 53" by (rule floor_log_less [OF False])
  with assms(3) have le: "?e' \<le> e" unfolding ulp_exponent_def by linarith
  then have d: "0 \<le> e - ?e'" by simp
  have "(2::real) powi e / 2 powi ?e' = 2 powi (e - ?e')"
    by (rule power_int_diff [symmetric]) simp
  also from d have "\<dots> = of_int (2 ^ nat (e - ?e'))" by (simp add: power_int_def)
  finally have r: "(2::real) powi e / 2 powi ?e' = of_int (2 ^ nat (e - ?e'))" .
  have "x / 2 powi ?e' = of_int m * (2 powi e / 2 powi ?e')" by (simp add: assms(1))
  also have "\<dots> = of_int (m * 2 ^ nat (e - ?e'))" by (simp only: r of_int_mult)
  finally have "rne (x / 2 powi ?e') = m * 2 ^ nat (e - ?e')" by (simp only: rne_of_int)
  then have "round_unbounded x = of_int m * (of_int (2 ^ nat (e - ?e')) * 2 powi ?e')"
    by (simp add: round_unbounded_def)
  also have "of_int (2 ^ nat (e - ?e')) * 2 powi ?e' = (2::real) powi e"
    using r by (simp add: field_simps)
  finally have ru: "round_unbounded x = x" by (simp add: assms(1))
  from assms(4) have "(2::real) powi (e + 53) \<le> 2 powi 1023"
    by (intro power_int_increasing) simp_all
  with xb have "\<bar>x\<bar> < 2 powi 1023" by linarith
  also have "(2::real) powi 1023 < 2 ^ 1024" by simp
  finally have "\<not> 2 ^ 1024 \<le> x" "\<not> x \<le> - (2 ^ 1024)" by linarith+
  then show ?thesis by (simp add: binary64_round ru Let_def)
qed

lemma binary64_of_int:
  assumes "\<bar>k\<bar> < 2 ^ 53"
  shows "binary64 (of_int k) = Num (of_int k)"
  using assms by (intro binary64_representable [where m = k and e = 0]) simp_all

lemma binary64_numeral [simp]:
  "numeral w < (2::int) ^ 53 \<Longrightarrow> binary64 (numeral w) = Num (numeral w)"
  using binary64_of_int [of "numeral w"] by simp

lemma binary64_neg_numeral [simp]:
  "numeral w < (2::int) ^ 53 \<Longrightarrow> binary64 (- numeral w) = Num (- numeral w)"
  using binary64_of_int [of "- numeral w"] by simp

lemma binary64_one [simp]: "binary64 1 = Num 1"
  using binary64_of_int [of 1] by simp

declare binary64_zero [simp]

section \<open>Lengths of the trend line and the forecast\<close>

lemma trend_line_length:
  "length (line (detectTrend rnd ys)) = length ys"
  by (simp add: detectTrend_def)

lemma forecast_loop_map:
  "forecast_loop rnd ys trendLine periods i vals
     = vals @ map (forecast_step rnd ys trendLine periods) [i .. periods]"
proof (induction rnd ys trendLine periods i vals rule: forecast_loop.induct)
  case (1 rnd ys trendLine periods i vals)
  show ?case
  proof (cases "i \<le> periods")
    case True
    then have "[i .. periods] = i # [i + 1 .. periods]"
      by (simp add: upto_rec1)
    with 1 True show ?thesis
      by (subst forecast_loop.simps) simp
  next
    case False
    then show ?thesis
      by (subst forecast_loop.simps) simp
  qed
qed

lemma forecast_values_map:
  "forecast_values (createForecast rnd ys trendLine (Some periods))
     = map (forecast_step rnd ys trendLine periods) [1 .. periods]"
  by (simp add: createForecast_def Let_def forecast_loop_map)

text \<open>
  Claim C6. The trend line returned by detectTrend has the length of the input series
  (of at least two points), and for every horizon of at least one, also the default 7,
  the values returned by createForecast are exactly as many as the horizon. This holds
  whatever the rounding.
\<close>

theorem line_and_forecast_lengths:
  "2 \<le> length ys \<and> 1 \<le> periods \<longrightarrow>
     length (line (detectTrend rnd ys)) = length ys
     \<and> length (forecast_values (createForecast rnd ys trendLine (Some periods))) = nat periods
     \<and> length (forecast_values (createForecast rnd ys trendLine None)) = 7"
  by (simp add: trend_line_length createForecast_def Let_def forecast_loop_map)

theorem line_and_forecast_lengths_witness:
  "2 \<le> length [1, 2, 4 :: real] \<and> (1::int) \<le> 3
   \<and> length (line (detectTrend binary64 [1, 2, 4])) = 3
   \<and> length (forecast_values
        (createForecast binary64 [1, 2, 4] (line (detectTrend binary64 [1, 2, 4])) (Some 3))) = 3
   \<and> length (forecast_values
        (createForecast binary64 [1, 2, 4] (line (detectTrend binary64 [1, 2, 4])) None)) = 7"
  using line_and_forecast_lengths
          [of "[1, 2, 4]" 3 binary64 "line (detectTrend binary64 [1, 2, 4])"]
  by simp

section \<open>The least-squares fit over exact arithmetic\<close>

lemma trend_loop_sum:
  "i \<le> length ys \<Longrightarrow>
   trend_loop exact ys i \<lparr>sumX = Num a, sumY = Num b, sumXY = Num c, sumXX = Num d\<rparr> =
     \<lparr>sumX = Num (a + (\<Sum>j = i ..< length ys. real j)),
      sumY = Num (b + (\<Sum>j = i ..< length ys. ys ! j)),
      sumXY = Num (c + (\<Sum>j = i ..< length ys. real j * ys ! j)),
      sumXX = Num (d + (\<Sum>j = i ..< length ys. real j * real j))\<rparr>"
proof (induction "length ys - i" arbitrary: i a b c d)
  case 0
  then have "i = length ys" by simp
  then show ?case
    by (subst trend_loop.simps) simp
next
  case (Suc k)
  then have lt: "i < length ys" and k: "k = length ys - Suc i" and le: "Suc i \<le> length ys"
    by simp_all
  show ?case
    by (subst trend_loop.simps)
       (simp add: lt Suc.hyps(1) [OF k le] sum.atLeast_Suc_lessThan algebra_simps)
qed

lemma trend_sums_closed:
  "trend_sums exact ys =
     \<lparr>sumX = Num (\<Sum>j < length ys. real j),
      sumY = Num (\<Sum>j < length ys. ys ! j),
      sumXY = Num (\<Sum>j < length ys. real j * ys ! j),
      sumXX = Num (\<Sum>j < length ys. real j * real j)\<rparr>"
  by (simp add: trend_sums_def trend_loop_sum atLeast0LessThan)

lemma sum_index: "(\<Sum>j < n. real j) = real n * (real n - 1) / 2"
  by (induction n) (simp_all add: field_simps)

lemma sum_index_sq: "(\<Sum>j < n. real j * real j) = (real n - 1) * real n * (2 * real n - 1) / 6"
  by (induction n) (simp_all add: field_simps)

lemma ols_denominator:
  "real n * (\<Sum>j < n. real j * real j) - (\<Sum>j < n. real j) * (\<Sum>j < n. real j)
     = real n * real n * (real n - 1) * (real n + 1) / 12"
  by (simp add: sum_index sum_index_sq field_simps)

lemma ols_denominator_pos:
  assumes "2 \<le> n"
  shows "0 < real n * (\<Sum>j < n. real j * real j) - (\<Sum>j < n. real j) * (\<Sum>j < n. real j)"
proof -
  from assms have "0 < real n" "0 < real n - 1" "0 < real n + 1" by simp_all
  then have "0 < real n * real n * (real n - 1) * (real n + 1) / 12" by simp
  then show ?thesis by (simp only: ols_denominator)
qed

lemma trend_slope_ols:
  assumes "2 \<le> length ys"
  shows "trend_slope exact ys = Num (spec_ols_slope ys)"
  using ols_denominator_pos [OF assms]
  by (simp add: trend_slope_def spec_ols_slope_def Let_def trend_sums_closed)

lemma trend_intercept_ols:
  assumes "2 \<le> length ys"
  shows "trend_intercept exact ys = Num (spec_ols_intercept ys)"
proof -
  from assms have "real (length ys) \<noteq> 0" by auto
  then show ?thesis
    by (simp add: trend_intercept_def spec_ols_intercept_def Let_def trend_sums_closed
        trend_slope_ols [OF assms])
qed

lemma trend_line_ols:
  assumes "2 \<le> length ys"
  shows "line (detectTrend exact ys)
           = map (\<lambda>i. Num (spec_ols_slope ys * real i + spec_ols_intercept ys)) [0 ..< length ys]"
  using assms by (simp add: detectTrend_def trend_slope_ols trend_intercept_ols)

lemma linear_slope:
  assumes n: "2 \<le> length ys" and lin: "\<And>i. i < length ys \<Longrightarrow> ys ! i = a + b * real i"
  shows "spec_ols_slope ys = b"
proof -
  let ?n = "length ys"
  let ?S1 = "\<Sum>i < ?n. real i"
  let ?S2 = "\<Sum>i < ?n. real i * real i"
  have sy: "(\<Sum>i < ?n. ys ! i) = real ?n * a + b * ?S1"
    using lin by (simp add: sum.distrib sum_distrib_left)
  have sxy: "(\<Sum>i < ?n. real i * ys ! i) = a * ?S1 + b * ?S2"
    using lin by (simp add: sum.distrib sum_distrib_left algebra_simps)
  have d: "real ?n * ?S2 - ?S1 * ?S1 \<noteq> 0"
    using ols_denominator_pos [OF n] by simp
  have "real ?n * (a * ?S1 + b * ?S2) - ?S1 * (real ?n * a + b * ?S1)
          = b * (real ?n * ?S2 - ?S1 * ?S1)"
    by (simp add: algebra_simps)
  with d show ?thesis
    by (simp add: spec_ols_slope_def Let_def sy sxy)
qed

lemma linear_intercept:
  assumes n: "2 \<le> length ys" and lin: "\<And>i. i < length ys \<Longrightarrow> ys ! i = a + b * real i"
  shows "spec_ols_intercept ys = a"
proof -
  have sy: "(\<Sum>i < length ys. ys ! i) = real (length ys) * a + b * (\<Sum>i < length ys. real i)"
    using lin by (simp add: sum.distrib sum_distrib_left)
  from n have "real (length ys) \<noteq> 0" by auto
  then show ?thesis
    by (simp add: spec_ols_intercept_def Let_def linear_slope [OF n lin] sy)
qed

text \<open>
  Claim C1. Over exact arithmetic, for a series of at least two points detectTrend
  computes the least-squares fit: the slope and the intercept are the specification's two
  formulas and the line at index \<open>i\<close> is slope times \<open>i\<close> plus intercept.
  Consequently, for an exactly linear series \<open>a + b * i\<close> the returned line is the
  series itself and the slope is \<open>b\<close>.
\<close>

theorem detectTrend_least_squares:
  "2 \<le> length ys \<longrightarrow>
     trend_slope exact ys = Num (spec_ols_slope ys)
     \<and> trend_intercept exact ys = Num (spec_ols_intercept ys)
     \<and> (\<forall>i < length ys.
           line (detectTrend exact ys) ! i = Num (spec_ols_slope ys * real i + spec_ols_intercept ys))
     \<and> ((\<forall>i < length ys. ys ! i = a + b * real i) \<longrightarrow>
           line (detectTrend exact ys) = map Num ys \<and> trend_slope exact ys = Num b)"
proof (intro impI conjI allI)
  assume n: "2 \<le> length ys"
  show "trend_slope exact ys = Num (spec_ols_slope ys)" by (rule trend_slope_ols [OF n])
  show "trend_intercept exact ys = Num (spec_ols_intercept ys)" by (rule trend_intercept_ols [OF n])
  show "line (detectTrend exact ys) ! i = Num (spec_ols_slope ys * real i + spec_ols_intercept ys)"
    if "i < length ys" for i
    using that by (simp add: trend_line_ols [OF n])
  assume "\<forall>i < length ys. ys ! i = a + b * real i"
  then have lin: "\<And>i. i < length ys \<Longrightarrow> ys ! i = a + b * real i" by simp
  show "trend_slope exact ys = Num b"
    by (simp add: trend_slope_ols [OF n] linear_slope [OF n lin])
  show "line (detectTrend exact ys) = map Num ys"
    by (rule nth_equalityI)
       (simp_all add: trend_line_ols [OF n] linear_slope [OF n lin] linear_intercept [OF n lin]
          lin algebra_simps)
qed

theorem detectTrend_least_squares_witness:
  "2 \<le> length [3, 5, 7 :: real]
   \<and> [3, 5, 7 :: real] = map (\<lambda>i. 3 + 2 * real i) [0 ..< 3]
   \<and> trend_slope exact [3, 5, 7] = Num 2
   \<and> line (detectTrend exact [3, 5, 7]) = [Num 3, Num 5, Num 7]"
proof -
  have lin: "\<forall>i < length [3, 5, 7 :: real]. [3, 5, 7 :: real] ! i = 3 + 2 * real i"
    by (simp add: less_Suc_eq numeral_3_eq_3)
  have n: "2 \<le> length [3, 5, 7 :: real]" by simp
  from detectTrend_least_squares [of "[3, 5, 7]" 3 2] n lin
  have r: "line (detectTrend exact [3, 5, 7]) = map Num [3, 5, 7] \<and> trend_slope exact [3, 5, 7] = Num 2"
    by blast
  then have r1: "trend_slope exact [3, 5, 7] = Num 2"
    and r2: "line (detectTrend exact [3, 5, 7]) = [Num 3, Num 5, Num 7]"
    by simp_all
  have m: "[3, 5, 7 :: real] = map (\<lambda>i. 3 + 2 * real i) [0 ..< 3]"
    by (simp add: upt_rec)
  show ?thesis by (intro conjI n m r1 r2)
qed

section \<open>Roundings of particular numbers\<close>

lemma fsqrt_Num: "0 \<le> a \<Longrightarrow> fsqrt rnd (Num a) = rnd (sqrt a)"
  by (simp add: fsqrt_def)

lemma binary64_sqrt_value:
  assumes "2 ^ 52 < m" and "m < 2 ^ 53" and "- 1074 \<le> e" and "e \<le> 970"
    and "((of_int m - 1 / 2) * 2 powi e)\<^sup>2 < a"
    and "a < ((of_int m + 1 / 2) * 2 powi e)\<^sup>2"
    and "y = of_int m * 2 powi e"
  shows "binary64 (sqrt a) = Num y"
proof -
  have p: "(0::real) < 2 powi e" by simp
  from assms(1) have "2 ^ 52 + 1 \<le> m" by simp
  then have "real_of_int (2 ^ 52 + 1) \<le> of_int m" by (simp only: of_int_le_iff)
  then have m1: "(2::real) ^ 52 \<le> of_int m - 1 / 2" by simp
  from assms(2) have "m + 1 \<le> 2 ^ 53" by simp
  then have "real_of_int (m + 1) \<le> of_int (2 ^ 53)" by (simp only: of_int_le_iff)
  then have m2: "of_int m + 1 / 2 < (2::real) ^ 53" by simp
  let ?L = "(real_of_int m - 1 / 2) * 2 powi e" and ?H = "(real_of_int m + 1 / 2) * 2 powi e"
  have "(0::real) < 2 ^ 52" by simp
  with m1 have "(0::real) \<le> of_int m + 1 / 2" by linarith
  then have H0: "0 \<le> ?H" by simp
  have lo: "?L < sqrt a" using assms(5) by (rule real_less_rsqrt)
  have "0 \<le> ?L\<^sup>2" by simp
  with assms(5) have a0: "0 \<le> a" by linarith
  have hi: "sqrt a < ?H" using assms(6) H0 by (intro real_less_lsqrt a0)
  have s0: "0 \<le> sqrt a" using a0 by simp
  have "(2::real) powi (e + 52) = 2 ^ 52 * 2 powi e" by (simp add: power_int_add)
  also have "\<dots> \<le> ?L" using m1 p by (intro mult_right_mono) simp_all
  finally have b1: "2 powi (e + 52) \<le> \<bar>sqrt a\<bar>" using lo s0 by simp
  have "?H < 2 ^ 53 * 2 powi e" using m2 p by (simp only: mult_less_cancel_right_pos)
  also have "\<dots> = (2::real) powi (e + 53)" by (simp add: power_int_add)
  finally have b2: "\<bar>sqrt a\<bar> < 2 powi (e + 53)" using hi s0 by simp
  from lo p have "of_int m - 1 / 2 < sqrt a / 2 powi e" by (simp add: pos_less_divide_eq)
  moreover from hi p have "sqrt a / 2 powi e < of_int m + 1 / 2" by (simp add: pos_divide_less_eq)
  ultimately have b3: "\<bar>sqrt a / 2 powi e - of_int m\<bar> < 1 / 2" by linarith
  show ?thesis
    by (rule binary64_value [OF b1 b2 assms(3) assms(4) b3 assms(7)])
qed

declare binary64_minus [simp]

lemma r64_1: "binary64 (9 /
     26959946667150639794667015087019630673637144422540572481103610249216) = Num (9 /
     26959946667150639794667015087019630673637144422540572481103610249216)"
  by (rule binary64_value [where e = "- 273" and m = "5066549580791808"]) simp_all

lemma r64_2: "binary64 (1 / 5192296858534827628530496329220096) = Num (1 /
     5192296858534827628530496329220096)"
  by (rule binary64_value [where e = "- 164" and m = "4503599627370496"]) simp_all

lemma r64_3: "binary64 (1 / 2596148429267413814265248164610048) = Num (1 /
     2596148429267413814265248164610048)"
  by (rule binary64_value [where e = "- 163" and m = "4503599627370496"]) simp_all

lemma r64_4: "binary64 (3 / 5192296858534827628530496329220096) = Num (3 /
     5192296858534827628530496329220096)"
  by (rule binary64_value [where e = "- 163" and m = "6755399441055744"]) simp_all

lemma r64_5: "binary64 (1 / 72057594037927936) = Num (1 / 72057594037927936)"
  by (rule binary64_value [where e = "- 108" and m = "4503599627370496"]) simp_all

lemma r64_6: "binary64 (1 / 200) = Num (5764607523034235 / 1152921504606846976)"
  by (rule binary64_value [where e = "- 60" and m = "5764607523034235"]) simp_all

lemma r64_7: "binary64 (5764607523034235 / 1152921504606846976) = Num (5764607523034235 /
     1152921504606846976)"
  by (rule binary64_value [where e = "- 60" and m = "5764607523034235"]) simp_all

lemma r64_8: "binary64 (1080863910568919 / 72057594037927936) = Num (1080863910568919 /
     72057594037927936)"
  by (rule binary64_value [where e = "- 59" and m = "8646911284551352"]) simp_all

lemma r64_9: "binary64 (3 / 200) = Num (1080863910568919 / 72057594037927936)"
  by (rule binary64_value [where e = "- 59" and m = "8646911284551352"]) simp_all

lemma r64_10: "binary64 (33776997205279 / 2251799813685248) = Num (33776997205279 /
     2251799813685248)"
  by (rule binary64_value [where e = "- 59" and m = "8646911284551424"]) simp_all

lemma r64_11: "binary64 (1 / 10) = Num (3602879701896397 / 36028797018963968)"
  by (rule binary64_value [where e = "- 56" and m = "7205759403792794"]) simp_all

lemma r64_12: "binary64 (1351079888211149 / 13510798882111488) = Num (7205759403792795 /
     72057594037927936)"
  by (rule binary64_value [where e = "- 56" and m = "7205759403792795"]) simp_all

lemma r64_13: "binary64 (2253601067072406824083110727225 / 20282409603651670423947251286016) =
     Num (8006399337547545 / 72057594037927936)"
  by (rule binary64_value [where e = "- 56" and m = "8006399337547545"]) simp_all

lemma r64_14: "binary64 (3602879701896397 / 18014398509481984) = Num (3602879701896397 /
     18014398509481984)"
  by (rule binary64_value [where e = "- 55" and m = "7205759403792794"]) simp_all

lemma r64_15: "binary64 (1126800533536204162641493258695 / 5070602400912917605986812821504) =
     Num (4003199668773775 / 18014398509481984)"
  by (rule binary64_value [where e = "- 55" and m = "8006399337547550"]) simp_all

lemma r64_16: "binary64 (10808639105689191 / 36028797018963968) = Num (1351079888211149 /
     4503599627370496)"
  by (rule binary64_tie [where e = "- 54" and m = "5404319552844595"]) simp_all

lemma r64_17: "binary64 (1501199875790165 / 4503599627370496) = Num (1501199875790165 /
     4503599627370496)"
  by (rule binary64_value [where e = "- 54" and m = "6004799503160660"]) simp_all

lemma r64_18: "binary64 (563400266768102456620715576889 / 1267650600228229401496703205376) = Num
     (2001599834386889 / 4503599627370496)"
  by (rule binary64_value [where e = "- 54" and m = "8006399337547556"]) simp_all

lemma r64_19: "binary64 (1 / 2) = Num (1 / 2)"
  by (rule binary64_value [where e = "- 53" and m = "4503599627370496"]) simp_all

lemma r64_20: "binary64 (144115188075855875 / 288230376151711744) = Num (1 / 2)"
  by (rule binary64_value [where e = "- 53" and m = "4503599627370496"]) simp_all

lemma r64_21: "binary64 (750599937895083 / 1125899906842624) = Num (750599937895083 /
     1125899906842624)"
  by (rule binary64_value [where e = "- 53" and m = "6004799503160664"]) simp_all

lemma r64_22: "binary64 (4503599627370495 / 4503599627370496) = Num (4503599627370495 /
     4503599627370496)"
  by (rule binary64_value [where e = "- 53" and m = "9007199254740990"]) simp_all

lemma r64_23: "binary64 (5254199565265579 / 5254199565265578) = Num (4503599627370497 /
     4503599627370496)"
  by (rule binary64_value [where e = "- 52" and m = "4503599627370497"]) simp_all

lemma r64_24: "binary64 (4571153621781053 / 4503599627370496) = Num (4571153621781053 /
     4503599627370496)"
  by (rule binary64_value [where e = "- 52" and m = "4571153621781053"]) simp_all

lemma r64_25: "binary64 (203 / 200) = Num (4571153621781053 / 4503599627370496)"
  by (rule binary64_value [where e = "- 52" and m = "4571153621781053"]) simp_all

lemma r64_26: "binary64 (5254199565265577 / 4503599627370496) = Num (5254199565265577 /
     4503599627370496)"
  by (rule binary64_value [where e = "- 52" and m = "5254199565265577"]) simp_all

lemma r64_27: "binary64 (7 / 6) = Num (5254199565265579 / 4503599627370496)"
  by (rule binary64_value [where e = "- 52" and m = "5254199565265579"]) simp_all

lemma r64_28: "binary64 (5254199565265579 / 4503599627370496) = Num (5254199565265579 /
     4503599627370496)"
  by (rule binary64_value [where e = "- 52" and m = "5254199565265579"]) simp_all

lemma r64_29: "binary64 (6004799503160661 / 4503599627370496) = Num (6004799503160661 /
     4503599627370496)"
  by (rule binary64_value [where e = "- 52" and m = "6004799503160661"]) simp_all

lemma r64_30: "binary64 (27021597764222975 / 18014398509481984) = Num (3 / 2)"
  by (rule binary64_value [where e = "- 52" and m = "6755399441055744"]) simp_all

lemma r64_31: "binary64 (5 / 3) = Num (7505999378950827 / 4503599627370496)"
  by (rule binary64_value [where e = "- 52" and m = "7505999378950827"]) simp_all

lemma r64_32: "binary64 (7505999378950827 / 4503599627370496) = Num (7505999378950827 /
     4503599627370496)"
  by (rule binary64_value [where e = "- 52" and m = "7505999378950827"]) simp_all

lemma r64_33: "binary64 (36057617073158521194928777956921 / 20282409603651670423947251286016) =
     Num (2001599834386887 / 1125899906842624)"
  by (rule binary64_value [where e = "- 52" and m = "8006399337547548"]) simp_all

lemma r64_34: "binary64 (4503599627370495 / 2251799813685248) = Num (4503599627370495 /
     2251799813685248)"
  by (rule binary64_value [where e = "- 52" and m = "9007199254740990"]) simp_all

lemma r64_35: "binary64 (2268688312287887 / 1125899906842624) = Num (2268688312287887 /
     1125899906842624)"
  by (rule binary64_value [where e = "- 51" and m = "4537376624575774"]) simp_all

lemma r64_36: "binary64 (9074753249151549 / 4503599627370496) = Num (2268688312287887 /
     1125899906842624)"
  by (rule binary64_tie [where e = "- 51" and m = "4537376624575774"]) simp_all

lemma r64_37: "binary64 (4571153621781053 / 2251799813685248) = Num (4571153621781053 /
     2251799813685248)"
  by (rule binary64_value [where e = "- 51" and m = "4571153621781053"]) simp_all

lemma r64_38: "binary64 (10508399130531157 / 4503599627370496) = Num (2627099782632789 /
     1125899906842624)"
  by (rule binary64_tie [where e = "- 51" and m = "5254199565265578"]) simp_all

lemma r64_39: "binary64 (3002399751580331 / 1125899906842624) = Num (3002399751580331 /
     1125899906842624)"
  by (rule binary64_value [where e = "- 51" and m = "6004799503160662"]) simp_all

lemma r64_40: "binary64 (56340026676810200626075283983929 / 20282409603651670423947251286016) =
     Num (6254999482459023 / 2251799813685248)"
  by (rule binary64_value [where e = "- 51" and m = "6254999482459023"]) simp_all

lemma r64_41: "binary64 (6254999482459023 / 2251799813685248) = Num (6254999482459023 /
     2251799813685248)"
  by (rule binary64_value [where e = "- 51" and m = "6254999482459023"]) simp_all

lemma r64_42: "binary64 (208166382776236281 / 72057594037927936) = Num (813149932719673 /
     281474976710656)"
  by (rule binary64_value [where e = "- 51" and m = "6505199461757384"]) simp_all

lemma r64_43: "binary64 (3752999689475413 / 1125899906842624) = Num (3752999689475413 /
     1125899906842624)"
  by (rule binary64_value [where e = "- 51" and m = "7505999378950826"]) simp_all

lemma r64_44: "binary64 (7 / 2) = Num (7 / 2)"
  by (rule binary64_value [where e = "- 51" and m = "7881299347898368"]) simp_all

lemma r64_45: "binary64 (18028808536579263599864140558791 / 5070602400912917605986812821504) =
     Num (8006399337547549 / 2251799813685248)"
  by (rule binary64_value [where e = "- 51" and m = "8006399337547549"]) simp_all

lemma r64_46: "binary64 (13 / 3) = Num (4878899596318037 / 1125899906842624)"
  by (rule binary64_value [where e = "- 50" and m = "4878899596318037"]) simp_all

lemma r64_47: "binary64 (5254199565265579 / 1125899906842624) = Num (5254199565265579 /
     1125899906842624)"
  by (rule binary64_value [where e = "- 50" and m = "5254199565265579"]) simp_all

lemma r64_48: "binary64 (28170013338405096560037952516551 / 5070602400912917605986812821504) =
     Num (3127499741229511 / 562949953421312)"
  by (rule binary64_value [where e = "- 50" and m = "6254999482459022"]) simp_all

lemma r64_49: "binary64 (3127499741229511 / 562949953421312) = Num (3127499741229511 /
     562949953421312)"
  by (rule binary64_value [where e = "- 50" and m = "6254999482459022"]) simp_all

lemma r64_50: "binary64 (104083191388118127 / 18014398509481984) = Num (6505199461757383 /
     1125899906842624)"
  by (rule binary64_value [where e = "- 50" and m = "6505199461757383"]) simp_all

lemma r64_51: "binary64 (26270997826327893 / 4503599627370496) = Num (6567749456581973 /
     1125899906842624)"
  by (rule binary64_value [where e = "- 50" and m = "6567749456581973"]) simp_all

lemma r64_52: "binary64 (31525197391593469 / 4503599627370496) = Num (7881299347898367 /
     1125899906842624)"
  by (rule binary64_value [where e = "- 50" and m = "7881299347898367"]) simp_all

lemma r64_53: "binary64 (9014404268289633301131946069561 / 1267650600228229401496703205376) =
     Num (4003199668773775 / 562949953421312)"
  by (rule binary64_value [where e = "- 50" and m = "8006399337547550"]) simp_all

lemma r64_54: "binary64 (21016798261062315 / 2251799813685248) = Num (5254199565265579 /
     562949953421312)"
  by (rule binary64_value [where e = "- 49" and m = "5254199565265579"]) simp_all

lemma r64_55: "binary64 (21 / 2) = Num (21 / 2)"
  by (rule binary64_value [where e = "- 49" and m = "5910974510923776"]) simp_all

lemma r64_56: "binary64 (6254999482459021 / 562949953421312) = Num (6254999482459021 /
     562949953421312)"
  by (rule binary64_value [where e = "- 49" and m = "6254999482459021"]) simp_all

lemma r64_57: "binary64 (14085006669202546403519131520569 / 1267650600228229401496703205376) =
     Num (6254999482459021 / 562949953421312)"
  by (rule binary64_value [where e = "- 49" and m = "6254999482459021"]) simp_all

lemma r64_58: "binary64 (52041595694059057 / 4503599627370496) = Num (3252599730878691 /
     281474976710656)"
  by (rule binary64_value [where e = "- 49" and m = "6505199461757382"]) simp_all

lemma r64_59: "binary64 (10508399130531157 / 562949953421312) = Num (2627099782632789 /
     140737488355328)"
  by (rule binary64_tie [where e = "- 48" and m = "5254199565265578"]) simp_all

lemma r64_60: "binary64 (13803306535818497051708618469831 / 158456325028528675187087900672) =
     Num (6129899492809841 / 70368744177664)"
  by (rule binary64_value [where e = "- 46" and m = "6129899492809841"]) simp_all

lemma r64_sqrt_1: "binary64 (sqrt (9 /
     26959946667150639794667015087019630673637144422540572481103610249216)) = Num (3 /
     5192296858534827628530496329220096)"
  by (rule binary64_sqrt_value [where e = "- 163" and m = "6755399441055744"]) (simp_all add: power2_eq_square)

lemma r64_sqrt_2: "binary64 (sqrt (6129899492809841 / 70368744177664)) = Num (2627099782632789 /
     281474976710656)"
  by (rule binary64_sqrt_value [where e = "- 49" and m = "5254199565265578"]) (simp_all add: power2_eq_square)

lemmas r64 =
  r64_1 r64_2 r64_3 r64_4 r64_5 r64_6 r64_7 r64_8 r64_9 r64_10 r64_11 r64_12 r64_13 r64_14
  r64_15 r64_16 r64_17 r64_18 r64_19 r64_20 r64_21 r64_22 r64_23 r64_24 r64_25 r64_26 r64_27
  r64_28 r64_29 r64_30 r64_31 r64_32 r64_33 r64_34 r64_35 r64_36 r64_37 r64_38 r64_39 r64_40
  r64_41 r64_42 r64_43 r64_44 r64_45 r64_46 r64_47 r64_48 r64_49 r64_50 r64_51 r64_52 r64_53
  r64_54 r64_55 r64_56 r64_57 r64_58 r64_59 r64_60 r64_sqrt_1 r64_sqrt_2

section \<open>The total of the fitted line\<close>

lemma foldl_fadd_exact:
  "foldl (fadd exact) (Num a) (map (\<lambda>i. Num (f i)) is) = Num (a + (\<Sum>i\<leftarrow>is. f i))"
  by (induction "is" arbitrary: a) (simp_all add: algebra_simps)

lemma jssum_exact: "jssum exact (map (\<lambda>i. Num (f i)) is) = Num (\<Sum>i\<leftarrow>is. f i)"
  by (simp add: jssum_def foldl_fadd_exact)

lemma sum_list_nth_real: "sum_list (ys :: real list) = (\<Sum>i < length ys. ys ! i)"
  by (simp add: sum_list_sum_nth atLeast0LessThan)

lemma ols_line_total:
  assumes "2 \<le> length ys"
  shows "(\<Sum>i\<leftarrow>[0 ..< length ys]. spec_ols_slope ys * real i + spec_ols_intercept ys)
           = sum_list ys"
proof -
  from assms have n: "real (length ys) \<noteq> 0" by auto
  have "(\<Sum>i\<leftarrow>[0 ..< length ys]. spec_ols_slope ys * real i + spec_ols_intercept ys)
          = (\<Sum>i < length ys. spec_ols_slope ys * real i + spec_ols_intercept ys)"
    by (simp add: interv_sum_list_conv_sum_set_nat atLeast0LessThan)
  also have "\<dots> = spec_ols_slope ys * (\<Sum>i < length ys. real i)
                    + real (length ys) * spec_ols_intercept ys"
    by (simp add: sum.distrib sum_distrib_left)
  also have "\<dots> = (\<Sum>i < length ys. ys ! i)"
    using n by (simp add: spec_ols_intercept_def Let_def)
  finally show ?thesis by (simp add: sum_list_nth_real)
qed

text \<open>
  Claim C10, as amended. Over exact arithmetic, for a series of at least two points the
  fitted line preserves the total of the series: the sum of the line equals the sum of
  the series, and so the line has the same arithmetic mean as the data.
\<close>

theorem trend_line_preserves_total:
  "2 \<le> length ys \<longrightarrow>
     jssum exact (line (detectTrend exact ys)) = Num (sum_list ys)
     \<and> fdiv exact (jssum exact (line (detectTrend exact ys))) (Num (real (length ys)))
         = Num (sum_list ys / real (length ys))"
proof
  assume n: "2 \<le> length ys"
  then have "real (length ys) \<noteq> 0" by auto
  moreover have "jssum exact (line (detectTrend exact ys)) = Num (sum_list ys)"
    by (simp add: trend_line_ols [OF n] jssum_exact ols_line_total [OF n])
  ultimately show "jssum exact (line (detectTrend exact ys)) = Num (sum_list ys)
     \<and> fdiv exact (jssum exact (line (detectTrend exact ys))) (Num (real (length ys)))
         = Num (sum_list ys / real (length ys))"
    by simp
qed

theorem trend_line_preserves_total_witness:
  "2 \<le> length [1, 2, 6 :: real] \<and> jssum exact (line (detectTrend exact [1, 2, 6])) = Num 9"
  using trend_line_preserves_total [of "[1, 2, 6]"] by simp

text \<open>
  Claim C10 as stated fails in the arithmetic of the program. For the series
  \<open>[0, 0, 7]\<close> the three values of the line are doubles whose exact sum is
  \<open>7 - 3 / 2 ^ 52\<close>, and added up in double arithmetic they give the double just
  below 7; the series sums to 7.
\<close>

theorem trend_line_total_counterexample:
  "line (detectTrend binary64 [0, 0, 7])
     = [Num (- (5254199565265579 / 4503599627370496)),
        Num (2627099782632789 / 1125899906842624),
        Num (6567749456581973 / 1125899906842624)]
   \<and> jssum exact (line (detectTrend binary64 [0, 0, 7]))
       = Num (31525197391593469 / 4503599627370496)
   \<and> jssum binary64 (line (detectTrend binary64 [0, 0, 7]))
       = Num (7881299347898367 / 1125899906842624)
   \<and> Num (sum_list [0, 0, 7]) = Num 7
   \<and> jssum binary64 (line (detectTrend binary64 [0, 0, 7])) \<noteq> Num (sum_list [0, 0, 7])"
  by (simp add: detectTrend_def trend_slope_def trend_intercept_def trend_sums_def
      trend_loop.simps Let_def upt_rec jssum_def r64)

section \<open>The trend label\<close>

lemma label_rank_simps:
  "label_rank desc_strong_growth = 2"
  "label_rank desc_moderate_growth = 1"
  "label_rank desc_stable = 0"
  "label_rank desc_moderate_decline = - 1"
  "label_rank desc_strong_decline = - 2"
  by (simp_all add: label_rank_def desc_strong_growth_def desc_moderate_growth_def
      desc_stable_def desc_moderate_decline_def desc_strong_decline_def)

lemma describe_spec_label:
  assumes "threshold_moderate rnd (jsneg y0) = jsneg (threshold_moderate rnd y0)"
    and "threshold_strong rnd (jsneg y0) = jsneg (threshold_strong rnd y0)"
    and "jsle (Num 0) (threshold_moderate rnd y0)"
    and "jsle (threshold_moderate rnd y0) (threshold_strong rnd y0)"
  shows "describe rnd s y0
           = spec_label s (threshold_moderate rnd y0) (threshold_strong rnd y0)"
proof -
  have "(let d0 = desc_stable;
             d1 = (if jsgt s t1 then desc_moderate_growth else d0);
             d2 = (if jsgt s t2 then desc_strong_growth else d1);
             d3 = (if jslt s (jsneg t1) then desc_moderate_decline else d2);
             d4 = (if jslt s (jsneg t2) then desc_strong_decline else d3)
         in d4) = spec_label s t1 t2"
    if "jsle (Num 0) t1" and "jsle t1 t2" for t1 t2
    using that
    by (cases s; cases t1; cases t2) (auto simp add: spec_label_def jsgt_def Let_def)
  from this [OF assms(3,4)] show ?thesis
    unfolding describe_def assms(1,2) .
qed

lemma spec_label_rank_mono:
  assumes "jsle (Num 0) t1" and "jsle t1 t2" and "jsle s s'"
  shows "label_rank (spec_label s t1 t2) \<le> label_rank (spec_label s' t1 t2)"
  using assms
  by (cases s; cases s'; cases t1; cases t2)
     (auto simp add: spec_label_def jsgt_def label_rank_simps)

lemma spec_label_strength_mono:
  assumes "jsle (Num 0) t1" and "jsle t1 t2" and "jsle (jsabs s) (jsabs s')"
  shows "\<bar>label_rank (spec_label s t1 t2)\<bar> \<le> \<bar>label_rank (spec_label s' t1 t2)\<bar>"
  using assms
  by (cases s; cases s'; cases t1; cases t2)
     (auto simp add: spec_label_def jsgt_def label_rank_simps)

lemma thresholds_binary64:
  "threshold_moderate binary64 (Num y0) = binary64 (y0 * (5764607523034235 / 1152921504606846976))"
  "threshold_strong binary64 (Num y0) = binary64 (y0 * (1080863910568919 / 72057594037927936))"
  "threshold_moderate binary64 (jsneg (Num y0)) = jsneg (threshold_moderate binary64 (Num y0))"
  "threshold_strong binary64 (jsneg (Num y0)) = jsneg (threshold_strong binary64 (Num y0))"
  by (simp_all add: threshold_moderate_def threshold_strong_def literal_def r64)

lemma thresholds_binary64_ordered:
  assumes "0 < y0"
  shows "jsle (Num 0) (threshold_moderate binary64 (Num y0))"
    and "jsle (threshold_moderate binary64 (Num y0)) (threshold_strong binary64 (Num y0))"
proof -
  from assms have "0 \<le> y0 * (5764607523034235 / 1152921504606846976)" by simp
  from binary64_mono [OF this] show "jsle (Num 0) (threshold_moderate binary64 (Num y0))"
    by (simp add: thresholds_binary64)
  from assms have "y0 * (5764607523034235 / 1152921504606846976) \<le> y0 * (1080863910568919 / 72057594037927936)" by simp
  from binary64_mono [OF this]
  show "jsle (threshold_moderate binary64 (Num y0)) (threshold_strong binary64 (Num y0))"
    by (simp only: thresholds_binary64)
qed

lemma describe_binary64:
  assumes "0 < y0"
  shows "describe binary64 s (Num y0)
           = spec_label s (threshold_moderate binary64 (Num y0))
               (threshold_strong binary64 (Num y0))"
  by (rule describe_spec_label)
     (simp_all only: thresholds_binary64(3,4) thresholds_binary64_ordered [OF assms])

lemma thresholds_exact:
  "threshold_moderate exact (Num y0) = Num (0.005 * y0)"
  "threshold_strong exact (Num y0) = Num (0.015 * y0)"
  "threshold_moderate exact (jsneg (Num y0)) = jsneg (threshold_moderate exact (Num y0))"
  "threshold_strong exact (jsneg (Num y0)) = jsneg (threshold_strong exact (Num y0))"
  by (simp_all add: threshold_moderate_def threshold_strong_def literal_def)

lemma describe_exact:
  assumes "0 < y0"
  shows "describe exact s (Num y0) = spec_label s (Num (0.005 * y0)) (Num (0.015 * y0))"
proof -
  have "describe exact s (Num y0)
          = spec_label s (threshold_moderate exact (Num y0)) (threshold_strong exact (Num y0))"
    using assms by (intro describe_spec_label) (simp_all add: thresholds_exact)
  then show ?thesis by (simp only: thresholds_exact)
qed

lemma description_first:
  assumes "2 \<le> length ys"
  shows "description (detectTrend rnd ys) = describe rnd (trend_slope rnd ys) (Num (ys ! 0))"
proof -
  from assms have "ys \<noteq> []" by auto
  then show ?thesis
    by (simp add: detectTrend_def js_index_def)
qed

text \<open>
  Claim C3. For a series of at least two points whose first value \<open>y0\<close> is positive, the
  label is determined by the band of the slope: above the strong threshold strong growth,
  above the moderate threshold and not above the strong one moderate growth, below minus
  the strong threshold strong decline, from there to below minus the moderate threshold
  moderate decline, otherwise stable. In the arithmetic of the program the slope is the
  one detectTrend computes and the thresholds are the products \<^verbatim>\<open>data[0] * 0.005\<close> and
  \<^verbatim>\<open>data[0] * 0.015\<close> it computes; over exact arithmetic the slope is the least-squares
  slope and the thresholds are \<open>0.005 * y0\<close> and \<open>0.015 * y0\<close>. Consequently, for two
  series with the same positive first value, a larger slope never gives a lower band and
  a larger slope magnitude never gives a weaker label.
\<close>

theorem trend_label_bands:
  "2 \<le> length ys \<and> 0 < ys ! 0 \<longrightarrow>
     description (detectTrend binary64 ys)
       = spec_label (trend_slope binary64 ys)
           (threshold_moderate binary64 (Num (ys ! 0)))
           (threshold_strong binary64 (Num (ys ! 0)))
     \<and> description (detectTrend exact ys)
       = spec_label (Num (spec_ols_slope ys)) (Num (0.005 * ys ! 0)) (Num (0.015 * ys ! 0))
     \<and> (2 \<le> length zs \<and> zs ! 0 = ys ! 0 \<longrightarrow>
          (jsle (trend_slope binary64 ys) (trend_slope binary64 zs) \<longrightarrow>
             label_rank (description (detectTrend binary64 ys))
               \<le> label_rank (description (detectTrend binary64 zs)))
          \<and> (jsle (jsabs (trend_slope binary64 ys)) (jsabs (trend_slope binary64 zs)) \<longrightarrow>
             \<bar>label_rank (description (detectTrend binary64 ys))\<bar>
               \<le> \<bar>label_rank (description (detectTrend binary64 zs))\<bar>)
          \<and> (spec_ols_slope ys \<le> spec_ols_slope zs \<longrightarrow>
             label_rank (description (detectTrend exact ys))
               \<le> label_rank (description (detectTrend exact zs)))
          \<and> (\<bar>spec_ols_slope ys\<bar> \<le> \<bar>spec_ols_slope zs\<bar> \<longrightarrow>
             \<bar>label_rank (description (detectTrend exact ys))\<bar>
               \<le> \<bar>label_rank (description (detectTrend exact zs))\<bar>))"
proof (intro impI)
  assume "2 \<le> length ys \<and> 0 < ys ! 0"
  then have n: "2 \<le> length ys" and pos: "0 < ys ! 0" by simp_all
  let ?t1 = "threshold_moderate binary64 (Num (ys ! 0))"
  let ?t2 = "threshold_strong binary64 (Num (ys ! 0))"
  note ord = thresholds_binary64_ordered [OF pos]
  have pe: "jsle (Num 0) (Num (0.005 * ys ! 0))"
    and oe: "jsle (Num (0.005 * ys ! 0)) (Num (0.015 * ys ! 0))"
    using pos by simp_all
  have b: "description (detectTrend binary64 ys) = spec_label (trend_slope binary64 ys) ?t1 ?t2"
    by (simp only: description_first [OF n] describe_binary64 [OF pos])
  have e: "description (detectTrend exact ys)
       = spec_label (Num (spec_ols_slope ys)) (Num (0.005 * ys ! 0)) (Num (0.015 * ys ! 0))"
    by (simp only: description_first [OF n] describe_exact [OF pos] trend_slope_ols [OF n])
  have mono: "(jsle (trend_slope binary64 ys) (trend_slope binary64 zs) \<longrightarrow>
             label_rank (description (detectTrend binary64 ys))
               \<le> label_rank (description (detectTrend binary64 zs)))
          \<and> (jsle (jsabs (trend_slope binary64 ys)) (jsabs (trend_slope binary64 zs)) \<longrightarrow>
             \<bar>label_rank (description (detectTrend binary64 ys))\<bar>
               \<le> \<bar>label_rank (description (detectTrend binary64 zs))\<bar>)
          \<and> (spec_ols_slope ys \<le> spec_ols_slope zs \<longrightarrow>
             label_rank (description (detectTrend exact ys))
               \<le> label_rank (description (detectTrend exact zs)))
          \<and> (\<bar>spec_ols_slope ys\<bar> \<le> \<bar>spec_ols_slope zs\<bar> \<longrightarrow>
             \<bar>label_rank (description (detectTrend exact ys))\<bar>
               \<le> \<bar>label_rank (description (detectTrend exact zs))\<bar>)"
    if z: "2 \<le> length zs \<and> zs ! 0 = ys ! 0"
  proof -
    from z have nz: "2 \<le> length zs" and z0: "zs ! 0 = ys ! 0" by simp_all
    from pos z0 have posz: "0 < zs ! 0" by simp
    have bz: "description (detectTrend binary64 zs)
                = spec_label (trend_slope binary64 zs) ?t1 ?t2"
      using description_first [OF nz, of binary64] describe_binary64 [OF posz] z0 by simp
    have ez: "description (detectTrend exact zs)
       = spec_label (Num (spec_ols_slope zs)) (Num (0.005 * ys ! 0)) (Num (0.015 * ys ! 0))"
      using description_first [OF nz, of exact] describe_exact [OF posz] trend_slope_ols [OF nz] z0
      by simp
    show ?thesis
      unfolding b bz e ez
      using spec_label_rank_mono [OF ord] spec_label_strength_mono [OF ord]
        spec_label_rank_mono [OF pe oe, of "Num (spec_ols_slope ys)" "Num (spec_ols_slope zs)"]
        spec_label_strength_mono [OF pe oe, of "Num (spec_ols_slope ys)" "Num (spec_ols_slope zs)"]
      by simp
  qed
  from b e mono show "description (detectTrend binary64 ys)
       = spec_label (trend_slope binary64 ys)
           (threshold_moderate binary64 (Num (ys ! 0)))
           (threshold_strong binary64 (Num (ys ! 0)))
     \<and> description (detectTrend exact ys)
       = spec_label (Num (spec_ols_slope ys)) (Num (0.005 * ys ! 0)) (Num (0.015 * ys ! 0))
     \<and> (2 \<le> length zs \<and> zs ! 0 = ys ! 0 \<longrightarrow>
          (jsle (trend_slope binary64 ys) (trend_slope binary64 zs) \<longrightarrow>
             label_rank (description (detectTrend binary64 ys))
               \<le> label_rank (description (detectTrend binary64 zs)))
          \<and> (jsle (jsabs (trend_slope binary64 ys)) (jsabs (trend_slope binary64 zs)) \<longrightarrow>
             \<bar>label_rank (description (detectTrend binary64 ys))\<bar>
               \<le> \<bar>label_rank (description (detectTrend binary64 zs))\<bar>)
          \<and> (spec_ols_slope ys \<le> spec_ols_slope zs \<longrightarrow>
             label_rank (description (detectTrend exact ys))
               \<le> label_rank (description (detectTrend exact zs)))
          \<and> (\<bar>spec_ols_slope ys\<bar> \<le> \<bar>spec_ols_slope zs\<bar> \<longrightarrow>
             \<bar>label_rank (description (detectTrend exact ys))\<bar>
               \<le> \<bar>label_rank (description (detectTrend exact zs))\<bar>))"
    by blast
qed

lemma slope_of_two: "spec_ols_slope [a, b] = b - a"
  by (simp add: spec_ols_slope_def Let_def lessThan_Suc numeral_2_eq_2)

lemmas trend_eval =
  trend_slope_def trend_intercept_def trend_sums_def trend_loop.simps Let_def
  threshold_moderate_def threshold_strong_def literal_def spec_label_def jsgt_def

theorem trend_label_bands_witness:
  "description (detectTrend binary64 [1, 4571153621781053 / 4503599627370496])
     = desc_strong_growth
   \<and> description (detectTrend exact [1, 4571153621781053 / 4503599627370496])
     = desc_moderate_growth
   \<and> description (detectTrend binary64 [100, 102]) = desc_strong_growth
   \<and> description (detectTrend binary64 [100, 101]) = desc_moderate_growth
   \<and> description (detectTrend binary64 [100, 100]) = desc_stable
   \<and> description (detectTrend binary64 [100, 99]) = desc_moderate_decline
   \<and> description (detectTrend binary64 [100, 98]) = desc_strong_decline
   \<and> label_rank (description (detectTrend binary64 [100, 101]))
        \<le> label_rank (description (detectTrend binary64 [100, 102]))"
proof -
  have a: "description (detectTrend binary64 [1, 4571153621781053 / 4503599627370496])
        = desc_strong_growth
      \<and> description (detectTrend exact [1, 4571153621781053 / 4503599627370496])
        = desc_moderate_growth"
    using trend_label_bands [of "[1, 4571153621781053 / 4503599627370496]"
                                "[1, 4571153621781053 / 4503599627370496]"]
    by (simp add: trend_eval r64 slope_of_two)
  have b: "description (detectTrend binary64 [100, 102]) = desc_strong_growth"
    using trend_label_bands [of "[100, 102]" "[100, 102]"] by (simp add: trend_eval r64)
  have c: "description (detectTrend binary64 [100, 101]) = desc_moderate_growth"
    using trend_label_bands [of "[100, 101]" "[100, 102]"] by (simp add: trend_eval r64)
  have d: "description (detectTrend binary64 [100, 100]) = desc_stable"
    using trend_label_bands [of "[100, 100]" "[100, 102]"] by (simp add: trend_eval r64)
  have e: "description (detectTrend binary64 [100, 99]) = desc_moderate_decline"
    using trend_label_bands [of "[100, 99]" "[100, 102]"] by (simp add: trend_eval r64)
  have f: "description (detectTrend binary64 [100, 98]) = desc_strong_decline"
    using trend_label_bands [of "[100, 98]" "[100, 102]"] by (simp add: trend_eval r64)
  from a b c d e f show ?thesis by (simp add: label_rank_simps)
qed

section \<open>The forecast steps\<close>

lemma js_index_nat:
  "0 \<le> i \<Longrightarrow> i < int (length xs) \<Longrightarrow> js_index xs i = xs ! nat i"
  by (simp add: js_index_def)

lemma js_index_negative: "i < 0 \<Longrightarrow> js_index xs i = NaN"
  by (simp add: js_index_def)

lemma forecast_values_nth:
  assumes "1 \<le> k" and "int k \<le> periods"
  shows "forecast_values (createForecast rnd ys trendLine (Some periods)) ! (k - 1)
           = forecast_step rnd ys trendLine periods (int k)"
proof -
  from assms have "k - 1 < length [1 .. periods]" by simp
  moreover from assms have "[1 .. periods] ! (k - 1) = int k" by simp
  ultimately show ?thesis
    by (simp add: forecast_values_map del: length_upto)
qed

lemma forecast_step_in_range:
  assumes "length trendLine = length ys" and "2 \<le> length ys"
    and "0 \<le> int (length ys) - periods + i - 1" and "i \<le> periods"
  shows "forecast_step rnd ys trendLine periods i
           = fadd rnd (fadd rnd (trendLine ! (length ys - 1))
                         (fmul rnd (fsub rnd (trendLine ! (length ys - 1))
                                             (trendLine ! (length ys - 2)))
                                   (Num (real_of_int i))))
                      (fsub rnd (Num (ys ! nat (int (length ys) - periods + i - 1)))
                                (trendLine ! nat (int (length ys) - periods + i - 1)))"
proof -
  let ?n = "int (length ys)"
  let ?j = "?n - periods + i - 1"
  have a: "?n - (periods - i) - 1 = ?j" by simp
  from assms have j: "0 \<le> ?j" "?j < int (length trendLine)" "?j < int (length (map Num ys))"
    by (simp, simp, simp)
  from assms have l1: "0 \<le> ?n - 1" "?n - 1 < int (length trendLine)"
    and l2: "0 \<le> ?n - 2" "?n - 2 < int (length trendLine)"
    by linarith+
  from assms(2) have n1: "nat (?n - 1) = length ys - 1" and n2: "nat (?n - 2) = length ys - 2"
    by linarith+
  from j(1) assms(4) have r: "nat ?j < length ys" by linarith
  have "js_index trendLine (?n - 1) = trendLine ! (length ys - 1)"
    using js_index_nat [OF l1] by (simp only: n1)
  moreover have "js_index trendLine (?n - 2) = trendLine ! (length ys - 2)"
    using js_index_nat [OF l2] by (simp only: n2)
  moreover have "js_index trendLine ?j = trendLine ! nat ?j"
    by (rule js_index_nat [OF j(1,2)])
  moreover have "js_index (map Num ys) ?j = Num (ys ! nat ?j)"
    using js_index_nat [OF j(1,3)] r by simp
  ultimately show ?thesis
    unfolding forecast_step_def Let_def a by (simp only:)
qed

lemma forecast_step_out_of_range:
  assumes "int (length ys) - periods + i - 1 < 0"
  shows "forecast_step rnd ys trendLine periods i = NaN"
proof -
  have a: "int (length ys) - (periods - i) - 1 = int (length ys) - periods + i - 1" by simp
  show ?thesis
    unfolding forecast_step_def Let_def a
    by (simp add: js_index_negative [OF assms])
qed

text \<open>
  Claim C2, as amended. For a series of at least two points, a trend line of the same
  length and a horizon of at least one, every forecast step \<open>k\<close> whose residual index
  \<open>j = n - horizon + k - 1\<close> is not negative (every step when the horizon is at most
  \<open>n\<close>) is \<open>line[n-1] + (line[n-1] - line[n-2]) * k + (series[j] - line[j])\<close>, and every
  step whose residual index is negative is NaN: the index is never wrapped. This holds
  whatever the rounding.
\<close>

theorem forecast_steps_in_range:
  "2 \<le> length ys \<and> length trendLine = length ys \<and> 1 \<le> k \<and> int k \<le> periods \<longrightarrow>
     (0 \<le> int (length ys) - periods + int k - 1 \<longrightarrow>
        forecast_values (createForecast rnd ys trendLine (Some periods)) ! (k - 1)
          = fadd rnd (fadd rnd (trendLine ! (length ys - 1))
                        (fmul rnd (fsub rnd (trendLine ! (length ys - 1))
                                            (trendLine ! (length ys - 2)))
                                  (Num (real k))))
                     (fsub rnd (Num (ys ! nat (int (length ys) - periods + int k - 1)))
                               (trendLine ! nat (int (length ys) - periods + int k - 1))))
     \<and> (int (length ys) - periods + int k - 1 < 0 \<longrightarrow>
        forecast_values (createForecast rnd ys trendLine (Some periods)) ! (k - 1) = NaN)"
proof (intro impI conjI)
  assume h: "2 \<le> length ys \<and> length trendLine = length ys \<and> 1 \<le> k \<and> int k \<le> periods"
  then have k: "1 \<le> k" "int k \<le> periods" by simp_all
  note v = forecast_values_nth [OF k, of rnd ys trendLine]
  {
    assume j: "0 \<le> int (length ys) - periods + int k - 1"
    from h j have "forecast_step rnd ys trendLine periods (int k)
             = fadd rnd (fadd rnd (trendLine ! (length ys - 1))
                        (fmul rnd (fsub rnd (trendLine ! (length ys - 1))
                                            (trendLine ! (length ys - 2)))
                                  (Num (real_of_int (int k)))))
                     (fsub rnd (Num (ys ! nat (int (length ys) - periods + int k - 1)))
                               (trendLine ! nat (int (length ys) - periods + int k - 1)))"
      by (intro forecast_step_in_range) simp_all
    with v show "forecast_values (createForecast rnd ys trendLine (Some periods)) ! (k - 1)
          = fadd rnd (fadd rnd (trendLine ! (length ys - 1))
                        (fmul rnd (fsub rnd (trendLine ! (length ys - 1))
                                            (trendLine ! (length ys - 2)))
                                  (Num (real k))))
                     (fsub rnd (Num (ys ! nat (int (length ys) - periods + int k - 1)))
                               (trendLine ! nat (int (length ys) - periods + int k - 1)))"
      by simp
  }
  {
    assume "int (length ys) - periods + int k - 1 < 0"
    then have "forecast_step rnd ys trendLine periods (int k) = NaN"
      by (rule forecast_step_out_of_range)
    with v show "forecast_values (createForecast rnd ys trendLine (Some periods)) ! (k - 1) = NaN"
      by simp
  }
qed

lemma upto_1_3: "[1 .. 3 :: int] = [1, 2, 3]"
  by (simp add: upto_rec1)

lemma line_of_two_binary64: "line (detectTrend binary64 [1, 2]) = [Num 1, Num 2]"
  by (simp add: detectTrend_def trend_eval upt_rec)

text \<open>
  Claim C2 as stated fails for a series shorter than the horizon: with two points and
  horizon 3 the first step reads index \<open>-1\<close> of both arrays and is NaN, where the
  specification's step with the index moved to 0 is 3.
\<close>

theorem forecast_short_series_counterexample:
  "forecast_values (createForecast binary64 [1, 2] (line (detectTrend binary64 [1, 2])) (Some 3))
     = [NaN, Num 4, Num 5]
   \<and> spec_forecast_step binary64 [1, 2] (line (detectTrend binary64 [1, 2])) 3 1 = Num 3"
  by (simp add: line_of_two_binary64 forecast_values_map upto_1_3 forecast_step_def
      spec_forecast_step_def js_index_def)

theorem forecast_steps_in_range_witness:
  "forecast_values (createForecast binary64 [1, 4, 9] [Num 1, Num 4, Num 7] (Some 2)) ! 0
     = Num 10
   \<and> forecast_values (createForecast binary64 [1, 2] [Num 1, Num 2] (Some 3)) ! 0 = NaN"
  using forecast_steps_in_range [of "[1, 4, 9]" "[Num 1, Num 4, Num 7]" 1 2 binary64]
        forecast_steps_in_range [of "[1, 2]" "[Num 1, Num 2]" 1 3 binary64]
  by (simp add: numeral_3_eq_3)

section \<open>Short series and empty horizons\<close>

lemma trend_sums_empty [simp]:
  "trend_sums rnd [] = \<lparr>sumX = Num 0, sumY = Num 0, sumXY = Num 0, sumXX = Num 0\<rparr>"
  by (simp add: trend_sums_def trend_loop.simps)

lemma trend_sums_single:
  assumes "rnd 0 = Num 0"
  shows "trend_sums rnd [y] = \<lparr>sumX = Num 0, sumY = rnd y, sumXY = Num 0, sumXX = Num 0\<rparr>"
  by (simp add: trend_sums_def trend_loop.simps assms)

lemma trend_slope_short:
  assumes "rnd 0 = Num 0" and "length ys < 2"
  shows "trend_slope rnd ys = NaN"
proof -
  from assms(2) consider "ys = []" | y where "ys = [y]"
    by (cases ys; cases "tl ys") auto
  then show ?thesis
  proof cases
    case 1
    then show ?thesis
      by (simp add: trend_slope_def Let_def assms(1) fdiv_def)
  next
    case 2
    have "fmul rnd (Num 0) (rnd y) = Num 0 \<or> fmul rnd (Num 0) (rnd y) = NaN"
      by (cases "rnd y") (simp_all add: assms(1) fmul_def)
    then show ?thesis
      by (auto simp add: 2 trend_slope_def Let_def trend_sums_single [of rnd, OF assms(1)] assms(1)
          fdiv_def)
  qed
qed

lemma trend_intercept_short:
  assumes "rnd 0 = Num 0" and "length ys < 2"
  shows "trend_intercept rnd ys = NaN"
  by (simp add: trend_intercept_def Let_def trend_slope_short [of rnd, OF assms])

lemma describe_NaN: "describe rnd NaN y0 = desc_stable"
  by (simp add: describe_def Let_def jsgt_def)

lemma detectTrend_short:
  assumes "rnd 0 = Num 0" and "length ys < 2"
  shows "detectTrend rnd ys = \<lparr>line = replicate (length ys) NaN, description = desc_stable\<rparr>"
  by (simp add: detectTrend_def trend_slope_short [of rnd, OF assms] trend_intercept_short [of rnd, OF assms]
      describe_NaN map_replicate_const)

lemma forecast_step_short:
  assumes "length ys < 2"
  shows "forecast_step rnd ys trendLine periods i = NaN"
proof -
  from assms have "js_index trendLine (int (length ys) - 2) = NaN"
    by (simp add: js_index_def)
  then show ?thesis
    by (simp add: forecast_step_def Let_def)
qed

lemma forecast_values_short:
  assumes "length ys < 2"
  shows "forecast_values (createForecast rnd ys trendLine (Some periods))
           = replicate (nat periods) NaN"
proof -
  have "forecast_step rnd ys trendLine periods = (\<lambda>i. NaN)"
    by (rule ext) (rule forecast_step_short [OF assms])
  then show ?thesis
    by (simp add: forecast_values_map map_replicate_const)
qed

lemma forecast_values_no_horizon:
  assumes "periods < 1"
  shows "forecast_values (createForecast rnd ys trendLine (Some periods)) = []"
  using assms by (simp add: forecast_values_map)

text \<open>
  Claim C5, as amended. Neither function fails on a short input; the source has no
  InvalidInput error. For a series of fewer than two points detectTrend returns a line of
  the length of the series whose entries are all NaN, with the stable description, and
  createForecast returns as many values as the horizon, all NaN; for a horizon below one
  createForecast returns no values. This holds in the arithmetic of the program and over
  exact arithmetic.
\<close>

theorem short_input_returns_values:
  "(length ys < 2 \<longrightarrow>
      detectTrend binary64 ys = \<lparr>line = replicate (length ys) NaN, description = desc_stable\<rparr>
      \<and> detectTrend exact ys = \<lparr>line = replicate (length ys) NaN, description = desc_stable\<rparr>
      \<and> forecast_values (createForecast rnd ys trendLine (Some periods))
          = replicate (nat periods) NaN)
   \<and> (periods < 1 \<longrightarrow> forecast_values (createForecast rnd ys trendLine (Some periods)) = [])"
  using detectTrend_short [of binary64 ys] detectTrend_short [of exact ys]
    forecast_values_short [of ys rnd trendLine periods]
    forecast_values_no_horizon [of periods rnd ys trendLine]
  by simp

theorem short_input_returns_values_witness:
  "detectTrend binary64 [5] = \<lparr>line = [NaN], description = desc_stable\<rparr>
   \<and> forecast_values (createForecast binary64 [5] [NaN] (Some 2)) = [NaN, NaN]
   \<and> forecast_values (createForecast binary64 [1, 2] [Num 1, Num 2] (Some 0)) = []"
  using short_input_returns_values [of "[5]" binary64 "[NaN]" 2]
        short_input_returns_values [of "[1, 2]" binary64 "[Num 1, Num 2]" 0]
  by (simp add: numeral_2_eq_2)

text \<open>
  Claim C5 as stated fails: on a series of one point detectTrend and createForecast
  return a result, createForecast returns one for horizon 0, and the whole analysis
  returns normally.
\<close>

theorem short_input_counterexample:
  "detectTrend binary64 [5] = \<lparr>line = [NaN], description = desc_stable\<rparr>
   \<and> createForecast binary64 [5] [NaN] (Some 2)
        = \<lparr>forecast_values = [NaN, NaN], avgForecast = NaN\<rparr>
   \<and> createForecast binary64 [1, 2] [Num 1, Num 2] (Some 0)
        = \<lparr>forecast_values = [], avgForecast = NaN\<rparr>
   \<and> (case performAiAnalysis binary64 (\<lambda>xs. xs) [5] None of
         Inl e \<Rightarrow> False
       | Inr r \<Rightarrow> result_trend r = \<lparr>line = [NaN], description = desc_stable\<rparr>)"
proof -
  have n: "length [5 :: real] < 2" by simp
  have a: "detectTrend binary64 [5] = \<lparr>line = [NaN], description = desc_stable\<rparr>"
    using detectTrend_short [of binary64, OF binary64_zero n] by simp
  have b: "forecast_loop binary64 [5] [NaN] 2 1 [] = [NaN, NaN]"
    by (simp add: forecast_loop_map forecast_step_short [OF n] upto_rec1)
  have c: "forecast_loop binary64 [1, 2] [Num 1, Num 2] 0 1 [] = []"
    by (simp add: forecast_loop_map)
  have d: "\<not> js_includes desc_stable kw_growth" "\<not> js_includes desc_stable kw_decline"
    by (simp_all add: desc_stable_def kw_growth_def kw_decline_def)
  have e: "map_of positiveDrivers (ascii ''revenue'') \<noteq> None"
          "map_of negativeDrivers (ascii ''revenue'') \<noteq> None"
    by (simp_all add: positiveDrivers_def negativeDrivers_def)
  show ?thesis
    using e
    by (auto simp add: a createForecast_def Let_def b c js_index_def performAiAnalysis_def
        identifyDrivers_def d split: option.splits)
qed

section \<open>The percent change of a series\<close>

lemma change_formula:
  "change (stats rnd (Some (d0 # rest))) =
     (if length (d0 # rest) > 1
      then fmul rnd (fdiv rnd (fsub rnd (Num (last (d0 # rest))) (Num d0))
                              (Num (if d0 = 0 then 1 else d0)))
                    (Num 100)
      else Num 0)"
  by (simp add: stats_def Let_def last_conv_nth)

text \<open>
  Claim C7 as stated fails: the change of \<open>[0, 5, 10]\<close> is 1000, not 10, in the
  arithmetic of the program.
\<close>

theorem change_of_zero_start_counterexample:
  "change (stats binary64 (Some [0, 5, 10])) = Num 1000
   \<and> change (stats binary64 (Some [0, 5, 10])) \<noteq> Num 10"
  by (simp add: stats_def Let_def)

text \<open>
  Claim C7, as amended. For the series \<open>[0, 5, 10]\<close> the change is 1000, which is
  \<open>(10 - 0) / 1 * 100\<close>: the divisor is 1 because the first value is 0. In general
  the change is \<open>(last - first) / (first || 1) * 100\<close> for more than one point and 0
  otherwise: each operation rounded in the arithmetic of the program, and the exact value
  over exact arithmetic.
\<close>

theorem change_percent_formula:
  "change (stats binary64 (Some [0, 5, 10])) = Num 1000
   \<and> change (stats exact (Some [0, 5, 10])) = Num ((10 - 0) / 1 * 100)
   \<and> (1 < length ys \<longrightarrow>
        change (stats rnd (Some ys))
          = fmul rnd (fdiv rnd (fsub rnd (Num (last ys)) (Num (hd ys)))
                               (Num (if hd ys = 0 then 1 else hd ys)))
                     (Num 100)
        \<and> change (stats exact (Some ys))
          = Num ((last ys - hd ys) / (if hd ys = 0 then 1 else hd ys) * 100))
   \<and> (length ys \<le> 1 \<longrightarrow> change (stats rnd (Some ys)) = Num 0)"
proof -
  have "change (stats rnd (Some ys))
          = fmul rnd (fdiv rnd (fsub rnd (Num (last ys)) (Num (hd ys)))
                               (Num (if hd ys = 0 then 1 else hd ys)))
                     (Num 100)
        \<and> change (stats exact (Some ys))
          = Num ((last ys - hd ys) / (if hd ys = 0 then 1 else hd ys) * 100)"
    if "1 < length ys"
  proof -
    from that obtain d0 rest where "ys = d0 # rest" by (cases ys) auto
    with that show ?thesis by (simp add: change_formula)
  qed
  moreover have "change (stats rnd (Some ys)) = Num 0" if "length ys \<le> 1"
  proof (cases ys)
    case Nil
    then show ?thesis by (simp add: stats_def)
  next
    case (Cons d0 rest)
    with that show ?thesis by (simp add: change_formula)
  qed
  moreover have "change (stats binary64 (Some [0, 5, 10])) = Num 1000"
    "change (stats exact (Some [0, 5, 10])) = Num ((10 - 0) / 1 * 100)"
    by (simp_all add: stats_def Let_def)
  ultimately show ?thesis by simp
qed

theorem change_percent_formula_witness:
  "change (stats binary64 (Some [50, 60, 75])) = Num 50
   \<and> change (stats exact (Some [50, 60, 75])) = Num 50
   \<and> change (stats binary64 (Some [7])) = Num 0"
  using change_percent_formula [of "[50, 60, 75]" binary64]
        change_percent_formula [of "[7]" binary64]
  by (simp add: r64)

section \<open>The correlation coefficient\<close>

lemma corr_loop_sum:
  "i \<le> min (length x) (length y) \<Longrightarrow>
   corr_loop exact x y (Num meanX) (Num meanY) i
       \<lparr>numerator = Num a, denomX = Num b, denomY = Num c\<rparr> =
     \<lparr>numerator = Num (a
        + (\<Sum>j = i ..< min (length x) (length y). (x ! j - meanX) * (y ! j - meanY))),
      denomX = Num (b
        + (\<Sum>j = i ..< min (length x) (length y). (x ! j - meanX) * (x ! j - meanX))),
      denomY = Num (c
        + (\<Sum>j = i ..< min (length x) (length y). (y ! j - meanY) * (y ! j - meanY)))\<rparr>"
proof (induction "min (length x) (length y) - i" arbitrary: i a b c)
  case 0
  then have "i = min (length x) (length y)" by linarith
  then show ?case
    by (subst corr_loop.simps) simp
next
  case (Suc k)
  then have lt: "i < min (length x) (length y)"
    and k: "k = min (length x) (length y) - Suc i"
    and le: "Suc i \<le> min (length x) (length y)"
    by linarith+
  from lt have lx: "i < length x" and ly: "i < length y" by simp_all
  show ?case
    by (subst corr_loop.simps)
       (simp add: lx ly Let_def Suc.hyps(1) [OF k le] sum.atLeast_Suc_lessThan algebra_simps)
qed

lemma foldl_fadd_exact_list:
  "foldl (fadd exact) (Num a) (map Num as) = Num (a + sum_list as)"
  by (induction as arbitrary: a) simp_all

lemma reduce_add_exact: "xs \<noteq> [] \<Longrightarrow> reduce_add exact xs = Inr (Num (sum_list xs))"
  by (cases xs) (simp_all add: foldl_fadd_exact_list)

lemma take_sq_dev:
  assumes "n \<le> length x"
  shows "spec_sq_dev (take n x)
           = (\<Sum>j < n. (x ! j - sum_list (take n x) / real n)
                        * (x ! j - sum_list (take n x) / real n))"
  using assms by (simp add: spec_sq_dev_def spec_mean_def min_absorb2)

lemma take_co_dev:
  assumes "n \<le> length x" and "n \<le> length y"
  shows "spec_co_dev (take n x) (take n y)
           = (\<Sum>j < n. (x ! j - sum_list (take n x) / real n)
                        * (y ! j - sum_list (take n y) / real n))"
  using assms by (simp add: spec_co_dev_def spec_mean_def min_absorb2)

lemma calculateCorrelation_closed:
  assumes "min (length x) (length y) \<noteq> 0"
  shows "calculateCorrelation exact x y =
     (let n = min (length x) (length y); xs = take n x; ys = take n y
      in if spec_sq_dev xs = 0 \<or> spec_sq_dev ys = 0 then Inr (Num 0)
         else Inr (Num (spec_co_dev xs ys / sqrt (spec_sq_dev xs * spec_sq_dev ys))))"
proof -
  define n where "n = min (length x) (length y)"
  define mx where "mx = sum_list (take n x) / real n"
  define my where "my = sum_list (take n y) / real n"
  define dx where "dx = spec_sq_dev (take n x)"
  define dy where "dy = spec_sq_dev (take n y)"
  define co where "co = spec_co_dev (take n x) (take n y)"
  from assms have n0: "n \<noteq> 0" and nx: "n \<le> length x" and ny: "n \<le> length y"
    by (simp_all add: n_def)
  from n0 nx ny have ne: "take n x \<noteq> []" "take n y \<noteq> []" by auto
  have loop: "corr_loop exact x y (Num mx) (Num my) 0
                \<lparr>numerator = Num 0, denomX = Num 0, denomY = Num 0\<rparr>
              = \<lparr>numerator = Num co, denomX = Num dx, denomY = Num dy\<rparr>"
    unfolding co_def dx_def dy_def take_sq_dev [OF nx] take_sq_dev [OF ny]
      take_co_dev [OF nx ny]
    by (simp add: corr_loop_sum atLeast0LessThan mx_def my_def n_def)
  have means: "fdiv exact (Num (sum_list (take n x))) (Num (real n)) = Num mx"
    "fdiv exact (Num (sum_list (take n y))) (Num (real n)) = Num my"
    using n0 by (simp_all add: mx_def my_def)
  have d0: "0 \<le> dx" "0 \<le> dy"
    by (simp_all add: dx_def dy_def spec_sq_dev_def sum_nonneg)
  have fin: "fdiv exact (Num co) (fsqrt exact (fmul exact (Num dx) (Num dy)))
               = Num (co / sqrt (dx * dy))"
    if "dx \<noteq> 0" and "dy \<noteq> 0"
  proof -
    from d0 have "0 \<le> dx * dy" by simp
    then have "fsqrt exact (fmul exact (Num dx) (Num dy)) = Num (sqrt (dx * dy))"
      by (simp add: fsqrt_Num)
    moreover from that have "sqrt (dx * dy) \<noteq> 0" by simp
    ultimately show ?thesis by simp
  qed
  have "calculateCorrelation exact x y
          = (if dx = 0 \<or> dy = 0 then Inr (Num 0)
             else Inr (fdiv exact (Num co) (fsqrt exact (fmul exact (Num dx) (Num dy)))))"
    unfolding calculateCorrelation_def Let_def n_def [symmetric]
    using n0
    by (simp only: reduce_add_exact [OF ne(1)] reduce_add_exact [OF ne(2)] means loop
        if_False sum.case corr_accum.simps jsnum.inject)
  also have "\<dots> = (if dx = 0 \<or> dy = 0 then Inr (Num 0)
                    else Inr (Num (co / sqrt (dx * dy))))"
  proof (cases "dx = 0 \<or> dy = 0")
    case True
    then show ?thesis by (simp only: if_True)
  next
    case False
    then have "dx \<noteq> 0" "dy \<noteq> 0" by simp_all
    from fin [OF this] False show ?thesis by (simp only: if_False)
  qed
  finally show ?thesis
    unfolding Let_def n_def [symmetric] dx_def dy_def co_def .
qed

lemma cauchy_schwarz_sum:
  fixes a b :: "nat \<Rightarrow> real"
  shows "(\<Sum>i < n. a i * b i) * (\<Sum>i < n. a i * b i)
           \<le> (\<Sum>i < n. a i * a i) * (\<Sum>i < n. b i * b i)"
proof -
  let ?A = "\<Sum>i < n. a i * a i" and ?B = "\<Sum>i < n. b i * b i" and ?C = "\<Sum>i < n. a i * b i"
  have B0: "0 \<le> ?B" by (simp add: sum_nonneg)
  show ?thesis
  proof (cases "?B = 0")
    case True
    then have "\<forall>i \<in> {..< n}. b i * b i = 0"
      by (subst (asm) sum_nonneg_eq_0_iff) simp_all
    then have "?C = 0" by simp
    with True show ?thesis by simp
  next
    case False
    with B0 have Bpos: "0 < ?B" by simp
    have "0 \<le> (\<Sum>i < n. (?B * a i - ?C * b i) * (?B * a i - ?C * b i))"
      by (simp add: sum_nonneg)
    also have "(\<Sum>i < n. (?B * a i - ?C * b i) * (?B * a i - ?C * b i))
                 = (\<Sum>i < n. ?B * ?B * (a i * a i) - 2 * ?B * ?C * (a i * b i)
                                + ?C * ?C * (b i * b i))"
      by (rule sum.cong) (simp_all add: algebra_simps)
    also have "\<dots> = ?B * ?B * ?A - 2 * ?B * ?C * ?C + ?C * ?C * ?B"
      by (simp only: sum.distrib sum_subtractf sum_distrib_left)
    also have "\<dots> = ?B * (?A * ?B - ?C * ?C)"
      by (simp add: algebra_simps)
    finally have "0 \<le> ?B * (?A * ?B - ?C * ?C)" .
    with Bpos have "0 \<le> ?A * ?B - ?C * ?C"
      by (simp add: zero_le_mult_iff)
    then show ?thesis by simp
  qed
qed

lemma co_dev_bound:
  assumes "length xs = length ys"
  shows "spec_co_dev xs ys * spec_co_dev xs ys \<le> spec_sq_dev xs * spec_sq_dev ys"
  using assms
    cauchy_schwarz_sum [of "\<lambda>i. xs ! i - spec_mean xs" "\<lambda>i. ys ! i - spec_mean ys" "length ys"]
  by (simp add: spec_co_dev_def spec_sq_dev_def)

lemma sq_dev_nonneg: "0 \<le> spec_sq_dev xs"
  by (simp add: spec_sq_dev_def sum_nonneg)

lemma ratio_bounded:
  fixes c d :: real
  assumes "c * c \<le> d" and "0 < d"
  shows "- 1 \<le> c / sqrt d \<and> c / sqrt d \<le> 1"
proof -
  from assms(2) have s: "0 < sqrt d" by simp
  have "\<bar>c\<bar> = sqrt (c * c)" by simp
  also from assms(1) have "\<dots> \<le> sqrt d" by (rule real_sqrt_le_mono)
  finally have "\<bar>c\<bar> \<le> sqrt d" .
  then have "c \<le> sqrt d" and "- sqrt d \<le> c" by linarith+
  with s show ?thesis by (simp add: pos_le_divide_eq pos_divide_le_eq)
qed

lemma correlation_bounded:
  "\<exists>r. calculateCorrelation exact x y = Inr (Num r) \<and> - 1 \<le> r \<and> r \<le> 1"
proof (cases "min (length x) (length y) = 0")
  case True
  then show ?thesis by (simp add: calculateCorrelation_def)
next
  case False
  let ?n = "min (length x) (length y)"
  let ?xs = "take ?n x" and ?ys = "take ?n y"
  show ?thesis
  proof (cases "spec_sq_dev ?xs = 0 \<or> spec_sq_dev ?ys = 0")
    case True
    then show ?thesis
      by (simp add: calculateCorrelation_closed [OF False] Let_def)
  next
    case nz: False
    with sq_dev_nonneg [of ?xs] sq_dev_nonneg [of ?ys]
    have "0 < spec_sq_dev ?xs * spec_sq_dev ?ys" by simp
    moreover have "spec_co_dev ?xs ?ys * spec_co_dev ?xs ?ys
                     \<le> spec_sq_dev ?xs * spec_sq_dev ?ys"
      by (rule co_dev_bound) simp
    ultimately have "- 1 \<le> spec_co_dev ?xs ?ys / sqrt (spec_sq_dev ?xs * spec_sq_dev ?ys)
        \<and> spec_co_dev ?xs ?ys / sqrt (spec_sq_dev ?xs * spec_sq_dev ?ys) \<le> 1"
      by (intro ratio_bounded)
    with nz show ?thesis
      by (simp add: calculateCorrelation_closed [OF False] Let_def)
  qed
qed

lemma corr_loop_swap:
  "i \<le> min (length x) (length y) \<Longrightarrow>
   corr_loop rnd y x meanY meanX i \<lparr>numerator = a, denomX = c, denomY = b\<rparr>
     = (let s = corr_loop rnd x y meanX meanY i \<lparr>numerator = a, denomX = b, denomY = c\<rparr>
        in \<lparr>numerator = numerator s, denomX = denomY s, denomY = denomX s\<rparr>)"
proof (induction "min (length x) (length y) - i" arbitrary: i a b c)
  case 0
  then have "i = min (length x) (length y)" by linarith
  then have "\<not> i < min (length x) (length y)" "\<not> i < min (length y) (length x)"
    by (simp_all add: min.commute)
  then have "corr_loop rnd y x meanY meanX i \<lparr>numerator = a, denomX = c, denomY = b\<rparr>
               = \<lparr>numerator = a, denomX = c, denomY = b\<rparr>"
    and "corr_loop rnd x y meanX meanY i \<lparr>numerator = a, denomX = b, denomY = c\<rparr>
               = \<lparr>numerator = a, denomX = b, denomY = c\<rparr>"
    by (subst corr_loop.simps, simp only: if_False)+
  then show ?case by (simp add: Let_def)
next
  case (Suc k)
  then have lt: "i < min (length x) (length y)"
    and k: "k = min (length x) (length y) - Suc i"
    and le: "Suc i \<le> min (length x) (length y)"
    by linarith+
  from lt have lt': "i < min (length y) (length x)" by (simp add: min.commute)
  let ?dx = "fsub rnd (Num (x ! i)) meanX" and ?dy = "fsub rnd (Num (y ! i)) meanY"
  have l: "corr_loop rnd y x meanY meanX i \<lparr>numerator = a, denomX = c, denomY = b\<rparr>
             = corr_loop rnd y x meanY meanX (Suc i)
                 \<lparr>numerator = fadd rnd a (fmul rnd ?dy ?dx),
                  denomX = fadd rnd c (fmul rnd ?dy ?dy),
                  denomY = fadd rnd b (fmul rnd ?dx ?dx)\<rparr>"
    by (subst corr_loop.simps) (simp only: lt' if_True Let_def corr_accum.simps)
  have r: "corr_loop rnd x y meanX meanY i \<lparr>numerator = a, denomX = b, denomY = c\<rparr>
             = corr_loop rnd x y meanX meanY (Suc i)
                 \<lparr>numerator = fadd rnd a (fmul rnd ?dx ?dy),
                  denomX = fadd rnd b (fmul rnd ?dx ?dx),
                  denomY = fadd rnd c (fmul rnd ?dy ?dy)\<rparr>"
    by (subst corr_loop.simps) (simp only: lt if_True Let_def corr_accum.simps)
  have c: "fmul rnd ?dy ?dx = fmul rnd ?dx ?dy" by (rule fmul_commute)
  show ?case
    unfolding l r c by (rule Suc.hyps(1) [OF k le])
qed

lemma reduce_add_nonempty:
  "xs \<noteq> [] \<Longrightarrow> \<exists>t. reduce_add rnd xs = Inr t"
  by (cases xs) simp_all

lemma correlation_symmetric: "calculateCorrelation rnd x y = calculateCorrelation rnd y x"
proof (cases "min (length x) (length y) = 0")
  case True
  then have "min (length y) (length x) = 0" by (simp add: min.commute)
  with True show ?thesis by (simp add: calculateCorrelation_def)
next
  case False
  define n where "n = min (length x) (length y)"
  have m: "min (length y) (length x) = n" unfolding n_def by (rule min.commute)
  from False have n0: "n \<noteq> 0" by (simp add: n_def)
  from False have "take n x \<noteq> []" "take n y \<noteq> []" by (auto simp add: n_def)
  then obtain tx ty where t: "reduce_add rnd (take n x) = Inr tx"
    "reduce_add rnd (take n y) = Inr ty"
    using reduce_add_nonempty by blast
  define mx where "mx = fdiv rnd tx (Num (real n))"
  define my where "my = fdiv rnd ty (Num (real n))"
  define s where "s = corr_loop rnd x y mx my 0
                        \<lparr>numerator = Num 0, denomX = Num 0, denomY = Num 0\<rparr>"
  have sw: "corr_loop rnd y x my mx 0 \<lparr>numerator = Num 0, denomX = Num 0, denomY = Num 0\<rparr>
              = \<lparr>numerator = numerator s, denomX = denomY s, denomY = denomX s\<rparr>"
    using corr_loop_swap [of 0 x y rnd my mx "Num 0" "Num 0" "Num 0"]
    by (simp add: s_def Let_def)
  have xy: "calculateCorrelation rnd x y =
      (if denomX s = Num 0 \<or> denomY s = Num 0 then Inr (Num 0)
       else Inr (fdiv rnd (numerator s) (fsqrt rnd (fmul rnd (denomX s) (denomY s)))))"
    unfolding calculateCorrelation_def Let_def n_def [symmetric]
    using n0
    by (simp only: t if_False sum.case mx_def [symmetric] my_def [symmetric] s_def [symmetric])
  have yx: "calculateCorrelation rnd y x =
      (if denomY s = Num 0 \<or> denomX s = Num 0 then Inr (Num 0)
       else Inr (fdiv rnd (numerator s) (fsqrt rnd (fmul rnd (denomY s) (denomX s)))))"
    unfolding calculateCorrelation_def Let_def m
    using n0
    by (simp only: t if_False sum.case mx_def [symmetric] my_def [symmetric] sw
        corr_accum.simps)
  have c: "fmul rnd (denomY s) (denomX s) = fmul rnd (denomX s) (denomY s)"
    by (rule fmul_commute)
  show ?thesis
    unfolding xy yx c by (simp only: disj_commute)
qed

lemma sq_dev_zero_constant:
  assumes "spec_sq_dev xs = 0" and "a \<in> set xs"
  shows "a = spec_mean xs"
proof -
  from assms(1) have "\<forall>i \<in> {..< length xs}. (xs ! i - spec_mean xs) * (xs ! i - spec_mean xs) = 0"
    unfolding spec_sq_dev_def by (subst (asm) sum_nonneg_eq_0_iff) simp_all
  moreover from assms(2) obtain i where "i < length xs" "xs ! i = a"
    by (auto simp add: in_set_conv_nth)
  ultimately show ?thesis by auto
qed

lemma co_dev_self: "spec_co_dev xs xs = spec_sq_dev xs"
  by (simp add: spec_co_dev_def spec_sq_dev_def)

lemma correlation_self:
  assumes "a \<in> set x" and "b \<in> set x" and "a \<noteq> b"
  shows "calculateCorrelation exact x x = Inr (Num 1)"
proof -
  from assms(1) have n: "min (length x) (length x) \<noteq> 0" by auto
  have "spec_sq_dev x \<noteq> 0"
    using sq_dev_zero_constant [of x a] sq_dev_zero_constant [of x b] assms by auto
  with sq_dev_nonneg [of x] have pos: "0 < spec_sq_dev x" by simp
  then have "spec_sq_dev x / sqrt (spec_sq_dev x * spec_sq_dev x) = 1" by simp
  with pos show ?thesis
    by (simp add: calculateCorrelation_closed [OF n] Let_def co_dev_self)
qed

lemma correlation_zero:
  assumes "min (length x) (length y) = 0
           \<or> spec_sq_dev (take (min (length x) (length y)) x) = 0
           \<or> spec_sq_dev (take (min (length x) (length y)) y) = 0"
  shows "calculateCorrelation exact x y = Inr (Num 0)"
proof (cases "min (length x) (length y) = 0")
  case True
  then show ?thesis by (simp add: calculateCorrelation_def)
next
  case False
  with assms show ?thesis
    by (auto simp add: calculateCorrelation_closed [OF False] Let_def)
qed

text \<open>
  Claim C4, as amended. Over exact arithmetic, for all series \<open>x\<close> and \<open>y\<close>,
  calculateCorrelation returns a number in \<open>[-1, 1]\<close>; the correlation of a non-constant
  series with itself is exactly 1; and the result is 0 when the shorter length is 0 or
  when \<open>x\<close> or \<open>y\<close>, cut to the shorter length, has zero variance. The result for
  \<open>(x, y)\<close> equals the result for \<open>(y, x)\<close> whatever the rounding, so also in the
  arithmetic of the program.
\<close>

theorem correlation_properties:
  "(\<exists>r. calculateCorrelation exact x y = Inr (Num r) \<and> - 1 \<le> r \<and> r \<le> 1)
   \<and> calculateCorrelation rnd x y = calculateCorrelation rnd y x
   \<and> ((\<exists>a \<in> set x. \<exists>b \<in> set x. a \<noteq> b) \<longrightarrow> calculateCorrelation exact x x = Inr (Num 1))
   \<and> (min (length x) (length y) = 0
        \<or> spec_sq_dev (take (min (length x) (length y)) x) = 0
        \<or> spec_sq_dev (take (min (length x) (length y)) y) = 0
      \<longrightarrow> calculateCorrelation exact x y = Inr (Num 0))"
  using correlation_bounded [of x y] correlation_symmetric [of rnd x y]
        correlation_self [of _ x] correlation_zero [of x y]
  by blast

lemma sq_dev_replicate: "spec_sq_dev (replicate n c) = 0"
  by (cases "n = 0") (simp_all add: spec_sq_dev_def spec_mean_def sum_list_replicate)

theorem correlation_properties_witness:
  "calculateCorrelation exact [1, 2, 4] [1, 2, 4] = Inr (Num 1)
   \<and> calculateCorrelation exact [5, 5, 5] [1, 2, 3] = Inr (Num 0)
   \<and> calculateCorrelation exact [1, 2, 3] [5, 5, 5] = Inr (Num 0)
   \<and> calculateCorrelation exact [] [1, 2, 3] = Inr (Num 0)"
proof -
  have a: "\<exists>a \<in> set [1, 2, 4 :: real]. \<exists>b \<in> set [1, 2, 4 :: real]. a \<noteq> b"
    by (rule bexI [of _ 1], rule bexI [of _ 2]) simp_all
  have b: "spec_sq_dev (take (min (length [5, 5, 5 :: real]) (length [1, 2, 3 :: real])) [5, 5, 5]) = 0"
    using sq_dev_replicate [of 3 5] by (simp add: numeral_3_eq_3)
  have c: "min (length ([] :: real list)) (length [1, 2, 3 :: real]) = 0" by simp
  from correlation_properties [of "[1, 2, 4]" "[1, 2, 4]" exact] a
  have 1: "calculateCorrelation exact [1, 2, 4] [1, 2, 4] = Inr (Num 1)" by blast
  from correlation_properties [of "[5, 5, 5]" "[1, 2, 3]" exact] b
  have 2: "calculateCorrelation exact [5, 5, 5] [1, 2, 3] = Inr (Num 0)" by blast
  from correlation_properties [of "[1, 2, 3]" "[5, 5, 5]" exact] 2
  have 3: "calculateCorrelation exact [1, 2, 3] [5, 5, 5] = Inr (Num 0)" by simp
  from correlation_properties [of "[]" "[1, 2, 3]" exact] c
  have 4: "calculateCorrelation exact [] [1, 2, 3] = Inr (Num 0)" by blast
  from 1 2 3 4 show ?thesis by simp
qed

text \<open>
  Claim C4 as stated fails in the arithmetic of the program. The correlation of
  \<open>[0, 2, 3]\<close> and \<open>[1, 5, 7]\<close> is the double just above 1, outside \<open>[-1, 1]\<close>; and
  the constant series of three copies of the double nearest to 0.1, which has zero
  variance, has correlation 1 with itself, not 0, because its computed mean differs from
  its values.
\<close>

theorem correlation_rounding_counterexample:
  "calculateCorrelation binary64 [0, 2, 3] [1, 5, 7]
     = Inr (Num (4503599627370497 / 4503599627370496))
   \<and> (1::real) < 4503599627370497 / 4503599627370496
   \<and> calculateCorrelation binary64
        [3602879701896397 / 36028797018963968,
         3602879701896397 / 36028797018963968,
         3602879701896397 / 36028797018963968]
        [3602879701896397 / 36028797018963968,
         3602879701896397 / 36028797018963968,
         3602879701896397 / 36028797018963968] = Inr (Num 1)
   \<and> spec_sq_dev
        [3602879701896397 / 36028797018963968,
         3602879701896397 / 36028797018963968,
         3602879701896397 / 36028797018963968] = 0"
  using sq_dev_replicate [of 3 "3602879701896397 / 36028797018963968"]
  by (simp add: calculateCorrelation_def corr_loop.simps Let_def fsqrt_Num r64 numeral_3_eq_3)

section \<open>The flat series\<close>

lemma flat_series_list:
  "replicate 30 (100::real) =
     [100, 100, 100, 100, 100, 100, 100, 100, 100, 100, 100, 100, 100, 100, 100, 100,
      100, 100, 100, 100, 100, 100, 100, 100, 100, 100, 100, 100, 100, 100]"
  by (simp add: numeral_eq_Suc)

lemma flat_label: "description (detectTrend binary64 (replicate 30 100)) = desc_stable"
  unfolding flat_series_list
  by (simp add: detectTrend_def describe_def trend_eval js_index_def r64)

lemma flat_change:
  "change (stats rnd (Some (replicate (Suc n) c)))
     = (if n = 0 then Num 0
        else fmul rnd (fdiv rnd (rnd 0) (Num (if c = 0 then 1 else c))) (Num 100))"
  by (simp add: change_formula)

lemma correlation_same_kpi: "correlation rnd (Some k) (Some k) = Inr (Num 1)"
  by (cases "history k") (simp_all add: correlation_def)

lemma flat_helper:
  "calculateCorrelation binary64 (replicate 30 100) (replicate 30 100) = Inr (Num 0)"
  unfolding flat_series_list
  by (simp add: calculateCorrelation_def corr_loop.simps Let_def)

text \<open>
  Claim C8. For the flat series of thirty copies of 100 the trend label is stable, the
  change is 0, and the correlation of the series against itself is 1: the program
  correlates a KPI with itself through the \<^verbatim>\<open>correlation\<close> memo, which returns 1 for
  equal ids without calling calculateCorrelation. (On the two arrays alone
  calculateCorrelation returns 0, lemma \<open>flat_helper\<close>: a flat series has zero
  variance.)
\<close>

theorem flat_series_scenario:
  "description (detectTrend binary64 (replicate 30 100)) = desc_stable
   \<and> change (stats binary64 (Some (replicate 30 100))) = Num 0
   \<and> correlation binary64
        (Some \<lparr>kpi_id = kid, history = Some (replicate 30 100)\<rparr>)
        (Some \<lparr>kpi_id = kid, history = Some (replicate 30 100)\<rparr>) = Inr (Num 1)"
proof -
  have "change (stats binary64 (Some (replicate 30 100))) = Num 0"
    using flat_change [of binary64 29 100] by simp
  then show ?thesis
    by (simp only: flat_label correlation_same_kpi simp_thms)
qed

section \<open>The drivers\<close>

lemma take_two_of_rearranged:
  assumes "mset p = mset xs" and "distinct xs" and "2 \<le> length xs"
  shows "length (take 2 p) = 2 \<and> distinct (take 2 p) \<and> set (take 2 p) \<subseteq> set xs"
proof -
  from assms(1) have "length p = length xs" by (rule mset_eq_length)
  with assms(3) have "length (take 2 p) = 2" by simp
  moreover from assms(2) have "distinct p"
    using mset_eq_imp_distinct_iff [OF assms(1)] by simp
  then have "distinct (take 2 p)" by (rule distinct_take)
  moreover from assms(1) have "set p = set xs" by (rule mset_eq_setD)
  then have "set (take 2 p) \<subseteq> set xs" using set_take_subset [of 2 p] by simp
  ultimately show ?thesis by simp
qed

lemma ascii_keys:
  "ascii ''revenue'' = [114, 101, 118, 101, 110, 117, 101]"
  "ascii ''sales'' = [115, 97, 108, 101, 115]"
  "ascii ''new_clients'' = [110, 101, 119, 95, 99, 108, 105, 101, 110, 116, 115]"
  "ascii ''conversion'' = [99, 111, 110, 118, 101, 114, 115, 105, 111, 110]"
  by (simp_all add: ascii_def)

lemma pools_revenue:
  "map_of positiveDrivers (ascii ''revenue'') = Some
     [[1053, 1086, 1074, 1072, 1103, 32, 1084, 1072, 1088, 1082, 1077, 1090, 1080, 1085,
        1075, 1086, 1074, 1072, 1103, 32, 1082, 1072, 1084, 1087, 1072, 1085, 1080, 1103],
      [1057, 1077, 1079, 1086, 1085, 1085, 1099, 1081, 32, 1089, 1087, 1088, 1086, 1089],
      [1059, 1074, 1077, 1083, 1080, 1095, 1077, 1085, 1080, 1077, 32, 1089, 1088, 1077, 1076,
        1085, 1077, 1075, 1086, 32, 1095, 1077, 1082, 1072]]"
  "map_of negativeDrivers (ascii ''revenue'') = Some
     [[1057, 1085, 1080, 1078, 1077, 1085, 1080, 1077, 32, 1088, 1077, 1082, 1083, 1072,
        1084, 1085, 1086, 1075, 1086, 32, 1073, 1102, 1076, 1078, 1077, 1090, 1072],
      [1058, 1077, 1093, 1085, 1080, 1095, 1077, 1089, 1082, 1080, 1077, 32, 1087, 1088, 1086,
        1073, 1083, 1077, 1084, 1099, 32, 1085, 1072, 32, 1089, 1072, 1081, 1090, 1077],
      [1040, 1082, 1090, 1080, 1074, 1085, 1086, 1089, 1090, 1100, 32, 1082, 1086, 1085, 1082,
        1091, 1088, 1077, 1085, 1090, 1086, 1074]]"
  by (simp_all add: positiveDrivers_def negativeDrivers_def ascii_keys)

lemma pools_sales:
  "map_of positiveDrivers (ascii ''sales'') = Some
     [[1047, 1072, 1087, 1091, 1089, 1082, 32, 1087, 1088, 1086, 1084, 1086, 45, 1072, 1082,
        1094, 1080, 1080],
      [1056, 1086, 1089, 1090, 32, 1090, 1088, 1072, 1092, 1080, 1082, 1072, 32, 1080, 1079,
        32, 1089, 1086, 1094, 46, 32, 1089, 1077, 1090, 1077, 1081],
      [1059, 1083, 1091, 1095, 1096, 1077, 1085, 1080, 1077, 32, 85, 88, 32, 1085, 1072, 32,
        1089, 1072, 1081, 1090, 1077]]"
  "map_of negativeDrivers (ascii ''sales'') = Some
     [[1053, 1077, 1091, 1076, 1072, 1095, 1085, 1072, 1103, 32, 1072, 1082, 1094, 1080,
        1103],
      [1055, 1072, 1076, 1077, 1085, 1080, 1077, 32, 1086, 1088, 1075, 1072, 1085, 1080, 1095,
        1077, 1089, 1082, 1086, 1075, 1086, 32, 1090, 1088, 1072, 1092, 1080, 1082, 1072]]"
  by (simp_all add: positiveDrivers_def negativeDrivers_def ascii_keys)

lemma pools_new_clients:
  "map_of positiveDrivers (ascii ''new_clients'') = Some
     [[1059, 1089, 1087, 1077, 1096, 1085, 1072, 1103, 32, 80, 82, 45, 1072, 1082, 1090,
        1080, 1074, 1085, 1086, 1089, 1090, 1100],
      [1056, 1077, 1092, 1077, 1088, 1072, 1083, 1100, 1085, 1072, 1103, 32, 1087, 1088, 1086,
        1075, 1088, 1072, 1084, 1084, 1072],
      [1057, 1085, 1080, 1078, 1077, 1085, 1080, 1077, 32, 1089, 1090, 1086, 1080, 1084, 1086,
        1089, 1090, 1080, 32, 1087, 1088, 1080, 1074, 1083, 1077, 1095, 1077, 1085, 1080,
        1103]]"
  "map_of negativeDrivers (ascii ''new_clients'') = Some
     [[1053, 1077, 1075, 1072, 1090, 1080, 1074, 1085, 1099, 1077, 32, 1086, 1090, 1079,
        1099, 1074, 1099],
      [1056, 1086, 1089, 1090, 32, 1089, 1090, 1086, 1080, 1084, 1086, 1089, 1090, 1080, 32,
        1087, 1088, 1080, 1074, 1083, 1077, 1095, 1077, 1085, 1080, 1103, 32, 40, 67, 80, 65,
        41]]"
  by (simp_all add: positiveDrivers_def negativeDrivers_def ascii_keys)

lemma pools_conversion:
  "map_of positiveDrivers (ascii ''conversion'') = Some
     [[1054, 1087, 1090, 1080, 1084, 1080, 1079, 1072, 1094, 1080, 1103, 32, 1074, 1086,
        1088, 1086, 1085, 1082, 1080, 32, 1087, 1088, 1086, 1076, 1072, 1078],
      [65, 47, 66, 32, 1090, 1077, 1089, 1090, 1099, 32, 1085, 1072, 32, 1089, 1090, 1088,
        1072, 1085, 1080, 1094, 1077, 32, 1086, 1087, 1083, 1072, 1090, 1099],
      [1059, 1083, 1091, 1095, 1096, 1077, 1085, 1080, 1077, 32, 1089, 1082, 1086, 1088, 1086,
        1089, 1090, 1080, 32, 1089, 1072, 1081, 1090, 1072]]"
  "map_of negativeDrivers (ascii ''conversion'') = Some
     [[1041, 1072, 1075, 32, 1074, 32, 1082, 1086, 1088, 1079, 1080, 1085, 1077],
      [1057, 1083, 1086, 1078, 1085, 1072, 1103, 32, 1092, 1086, 1088, 1084, 1072, 32, 1088,
        1077, 1075, 1080, 1089, 1090, 1088, 1072, 1094, 1080, 1080]]"
  by (simp_all add: positiveDrivers_def negativeDrivers_def ascii_keys)

lemma pools_registered:
  assumes "kpiId \<in> set registered"
  shows "\<exists>pos neg. map_of positiveDrivers kpiId = Some pos
            \<and> map_of negativeDrivers kpiId = Some neg
            \<and> distinct (pos @ neg) \<and> 2 \<le> length pos \<and> 2 \<le> length neg"
proof -
  from assms consider "kpiId = ascii ''revenue''" | "kpiId = ascii ''sales''"
    | "kpiId = ascii ''new_clients''" | "kpiId = ascii ''conversion''"
    unfolding registered_def by auto
  then show ?thesis
  proof cases
    case 1
    show ?thesis unfolding 1 pools_revenue by simp
  next
    case 2
    show ?thesis unfolding 2 pools_sales by simp
  next
    case 3
    show ?thesis unfolding 3 pools_new_clients by simp
  next
    case 4
    show ?thesis unfolding 4 pools_conversion by simp
  qed
qed

text \<open>
  Claim C9. For every registered KPI id, every trend description and every outcome of the
  shuffle (any rearrangement of the pool), identifyDrivers returns exactly two distinct
  strings of the pool that matches the description: the positive pool of the id when the
  description contains the growth keyword, else its negative pool when the description
  contains the decline keyword, else both pools together. The result is never empty and
  has no duplicates.
\<close>

theorem identifyDrivers_two_distinct:
  "kpiId \<in> set registered \<and> (\<forall>xs. mset (shuffle xs) = mset xs) \<longrightarrow>
     (\<exists>pos neg ds.
        map_of positiveDrivers kpiId = Some pos
        \<and> map_of negativeDrivers kpiId = Some neg
        \<and> identifyDrivers shuffle kpiId trendDescription = Inr ds
        \<and> length ds = 2 \<and> distinct ds \<and> ds \<noteq> []
        \<and> set ds \<subseteq> set (if js_includes trendDescription kw_growth then pos
                           else if js_includes trendDescription kw_decline then neg
                           else pos @ neg))"
proof
  assume h: "kpiId \<in> set registered \<and> (\<forall>xs. mset (shuffle xs) = mset xs)"
  then obtain pos neg where p: "map_of positiveDrivers kpiId = Some pos"
    and n: "map_of negativeDrivers kpiId = Some neg"
    and d: "distinct (pos @ neg)" and lp: "2 \<le> length pos" and ln: "2 \<le> length neg"
    using pools_registered by blast
  let ?pool = "if js_includes trendDescription kw_growth then pos
               else if js_includes trendDescription kw_decline then neg
               else pos @ neg"
  from d lp ln have dp: "distinct ?pool" and l: "2 \<le> length ?pool" by auto
  from h have m: "mset (shuffle ?pool) = mset ?pool" by blast
  have r: "identifyDrivers shuffle kpiId trendDescription = Inr (take 2 (shuffle ?pool))"
    by (simp add: identifyDrivers_def p n)
  from take_two_of_rearranged [OF m dp l]
  have t: "length (take 2 (shuffle ?pool)) = 2" "distinct (take 2 (shuffle ?pool))"
    "set (take 2 (shuffle ?pool)) \<subseteq> set ?pool" by simp_all
  from t(1) have ne: "take 2 (shuffle ?pool) \<noteq> []" by auto
  from p n r t ne show "\<exists>pos neg ds.
        map_of positiveDrivers kpiId = Some pos
        \<and> map_of negativeDrivers kpiId = Some neg
        \<and> identifyDrivers shuffle kpiId trendDescription = Inr ds
        \<and> length ds = 2 \<and> distinct ds \<and> ds \<noteq> []
        \<and> set ds \<subseteq> set (if js_includes trendDescription kw_growth then pos
                           else if js_includes trendDescription kw_decline then neg
                           else pos @ neg)"
    by blast
qed

theorem identifyDrivers_two_distinct_witness:
  "ascii ''sales'' \<in> set registered \<and> (\<forall>xs :: jsstring list. mset (rev xs) = mset xs)
   \<and> (\<exists>ds. identifyDrivers rev (ascii ''sales'') desc_moderate_decline = Inr ds
          \<and> length ds = 2 \<and> distinct ds)"
proof -
  have a: "ascii ''sales'' \<in> set registered \<and> (\<forall>xs :: jsstring list. mset (rev xs) = mset xs)"
    by (simp add: registered_def)
  with identifyDrivers_two_distinct [of "ascii ''sales''" rev desc_moderate_decline]
  show ?thesis by blast
qed

end
